theory Spec2Isabelle
  imports Complex_Main "HOL-Library.Multiset"
begin

section \<open>Pebble: a day-keyed expense ledger (App.tsx)\<close>

text \<open>
  The theory embeds the logic of \<^verbatim>\<open>src/App.tsx\<close>: the day key \<^verbatim>\<open>dateKey\<close>, the ledger
  \<^verbatim>\<open>book\<close> with its three mutations \<^verbatim>\<open>addAmount\<close>, \<^verbatim>\<open>deleteExpense\<close> and \<^verbatim>\<open>clearToday\<close>,
  the derived values \<^verbatim>\<open>todayTotal\<close>, \<^verbatim>\<open>remaining\<close>, \<^verbatim>\<open>progress\<close>, \<^verbatim>\<open>spendingSummary\<close> and
  \<^verbatim>\<open>last7Totals\<close>, and the CSV branch of \<^verbatim>\<open>exportData\<close>. React state is one record that
  each callback takes and returns; what a callback reads from the platform (the clock,
  \<^verbatim>\<open>Math.random\<close>, the answer to an alert) is an argument.
\<close>

subsection \<open>JavaScript numbers\<close>

text \<open>
  A \<^verbatim>\<open>number\<close> is either \<^verbatim>\<open>NaN\<close> or a real. Arithmetic on reals is exact: the rounding
  of binary64, overflow to an infinity and the sign of zero are not part of this model.
  \<^verbatim>\<open>NaN\<close> is kept because the guard of \<^verbatim>\<open>addAmount\<close> is written for it: every comparison
  with \<^verbatim>\<open>NaN\<close> is false and every operation on it gives \<^verbatim>\<open>NaN\<close>.
\<close>

datatype number = NaN | Num real

fun js_add :: "number \<Rightarrow> number \<Rightarrow> number" where
  "js_add (Num a) (Num b) = Num (a + b)"
| "js_add _ _ = NaN"

fun js_sub :: "number \<Rightarrow> number \<Rightarrow> number" where
  "js_sub (Num a) (Num b) = Num (a - b)"
| "js_sub _ _ = NaN"

fun js_gt :: "number \<Rightarrow> number \<Rightarrow> bool" where
  "js_gt (Num a) (Num b) = (b < a)"
| "js_gt _ _ = False"

fun js_le :: "number \<Rightarrow> number \<Rightarrow> bool" where
  "js_le (Num a) (Num b) = (a \<le> b)"
| "js_le _ _ = False"

text \<open>
  A quotient with divisor zero is an infinity in JavaScript (or \<^verbatim>\<open>NaN\<close> for \<^verbatim>\<open>0 / 0\<close>).
  An infinity is no value of this model, so the division answers \<open>None\<close> there, and a
  caller that can reach it shows it.
\<close>

fun js_div :: "number \<Rightarrow> number \<Rightarrow> number option" where
  "js_div (Num a) (Num b) =
     (if b = 0 then (if a = 0 then Some NaN else None) else Some (Num (a / b)))"
| "js_div _ _ = Some NaN"

fun Math_max :: "number \<Rightarrow> number \<Rightarrow> number" where
  "Math_max (Num a) (Num b) = Num (max a b)"
| "Math_max _ _ = NaN"

fun Math_min :: "number \<Rightarrow> number \<Rightarrow> number" where
  "Math_min (Num a) (Num b) = Num (min a b)"
| "Math_min _ _ = NaN"

subsection \<open>Strings\<close>

text \<open>\<^verbatim>\<open>String(n)\<close> for an integer \<open>n\<close>: its decimal digits, with a minus sign below zero.\<close>

definition digit_char :: "nat \<Rightarrow> char" where
  "digit_char n = ''0123456789'' ! n"

fun digits :: "nat \<Rightarrow> string" where
  "digits n = (if n < 10 then [digit_char n] else digits (n div 10) @ [digit_char (n mod 10)])"

declare digits.simps [simp del]

definition String_of_int :: "int \<Rightarrow> string" where
  "String_of_int i = (if i < 0 then CHR ''-'' # digits (nat (- i)) else digits (nat i))"

text \<open>\<^verbatim>\<open>s.padStart(n, c)\<close> with a one-character filler.\<close>

definition padStart :: "nat \<Rightarrow> char \<Rightarrow> string \<Rightarrow> string" where
  "padStart n c s = replicate (n - length s) c @ s"

text \<open>\<^verbatim>\<open>s.replace(/,/g, ';')\<close>: every comma becomes a semicolon.\<close>

definition replace_commas :: "string \<Rightarrow> string" where
  "replace_commas s = map (\<lambda>c. if c = CHR '','' then CHR '';'' else c) s"

text \<open>\<^verbatim>\<open>rows.join(sep)\<close>.\<close>

fun join :: "string \<Rightarrow> string list \<Rightarrow> string" where
  "join sep [] = []"
| "join sep [r] = r"
| "join sep (r # rs) = r @ sep @ join sep rs"

text \<open>
  \<^verbatim>\<open>x.toFixed(f)\<close>, after ECMA-262, section 21.1.3.3. \<^verbatim>\<open>NaN\<close> prints as \<^verbatim>\<open>NaN\<close>. The sign
  is split off. A magnitude of \<open>10 ^ 21\<close> or more is printed by \<^verbatim>\<open>ToString\<close>, in exponent
  notation. Below that, \<open>n\<close> is the integer nearest to \<open>x * 10 ^ f\<close> (the larger one
  at a tie), and its digits are cut \<open>f\<close> places from the right, after padding with
  zeros to \<open>f + 1\<close> digits.

  \<^verbatim>\<open>ToString\<close> of a number from \<open>10 ^ 21\<close> on, after section 6.1.6.1.20: with \<open>n\<close> digits
  before the point, the digits \<open>s\<close> without the zeros at the end, then \<^verbatim>\<open>e+\<close> and
  \<open>n - 1\<close>; a point follows the first digit of \<open>s\<close> when it has more than one. A
  binary64 value that large is a whole number. The model prints the digits of the
  whole part of the real; binary64 prints the fewest digits that read back as the same
  binary64 value, which are the same digits where the whole part has 15 or fewer
  digits before its zeros. The infinities, which the numbers of this model leave out,
  print as \<^verbatim>\<open>Infinity\<close> and \<^verbatim>\<open>-Infinity\<close>, without decimals as well.
\<close>

definition strip_zeros :: "string \<Rightarrow> string" where
  "strip_zeros ds = rev (dropWhile (\<lambda>c. c = CHR ''0'') (rev ds))"

definition exponent_notation :: "nat \<Rightarrow> string" where
  "exponent_notation N =
     (let ds = digits N;
          n = length ds;
          s = strip_zeros ds;
          k = length s
      in (if k = 1 then s else [hd s] @ ''.'' @ tl s) @ ''e+'' @ digits (n - 1))"

definition Number_toFixed :: "number \<Rightarrow> nat \<Rightarrow> string" where
  "Number_toFixed v f =
     (case v of
        NaN \<Rightarrow> ''NaN''
      | Num x \<Rightarrow>
          (let s = (if x < 0 then ''-'' else '''');
               a = \<bar>x\<bar>;
               m = (if 10 ^ 21 \<le> a then exponent_notation (nat \<lfloor>a\<rfloor>)
                    else
                      (let n = nat \<lfloor>a * 10 ^ f + 1 / 2\<rfloor>;
                           m = digits n
                       in if f \<noteq> 0
                          then (let z = padStart (f + 1) CHR ''0'' m;
                                    k = length z
                                in take (k - f) z @ ''.'' @ drop (k - f) z)
                          else m))
           in s @ m))"

subsection \<open>Dates\<close>

text \<open>
  A \<^verbatim>\<open>Date\<close> is represented by its local time value, the milliseconds that ECMA-262
  calls \<open>LocalTime(t)\<close>: the program reads and writes dates through the local-time
  methods only (\<^verbatim>\<open>getFullYear\<close>, \<^verbatim>\<open>getMonth\<close>, \<^verbatim>\<open>getDate\<close>, \<^verbatim>\<open>setHours\<close>, \<^verbatim>\<open>setDate\<close>). The
  translation between UTC and local time is the platform's; where the program builds a
  date from an epoch timestamp it is an argument. The setters store the local time they
  compute, which is what the platform does wherever that local time exists in the
  device's zone. The calendar functions below follow ECMA-262, section 21.4.1.
\<close>

type_synonym Date = int

definition msPerDay :: int where
  "msPerDay = 86400000"

definition Day :: "int \<Rightarrow> int" where
  "Day t = t div msPerDay"

definition TimeWithinDay :: "int \<Rightarrow> int" where
  "TimeWithinDay t = t mod msPerDay"

definition DaysInYear :: "int \<Rightarrow> int" where
  "DaysInYear y =
     (if y mod 4 \<noteq> 0 then 365
      else if y mod 100 \<noteq> 0 then 366
      else if y mod 400 \<noteq> 0 then 365
      else 366)"

definition DayFromYear :: "int \<Rightarrow> int" where
  "DayFromYear y =
     365 * (y - 1970) + (y - 1969) div 4 - (y - 1901) div 100 + (y - 1601) div 400"

text \<open>
  \<open>YearFromTime(t)\<close> is the largest \<open>y\<close> with \<open>DayFromYear y \<le> Day t\<close>. It is found by
  counting up from a year that is not after it.
\<close>

function year_search :: "int \<Rightarrow> int \<Rightarrow> int" where
  "year_search y d = (if DayFromYear (y + 1) \<le> d then year_search (y + 1) d else y)"
  by pat_completeness auto
termination
proof (relation "measure (\<lambda>(y, d). nat (d - DayFromYear (y + 1) + 1))")
  show "wf (measure (\<lambda>(y, d). nat (d - DayFromYear (y + 1) + 1)))"
    by simp
next
  fix y d :: int
  assume le: "DayFromYear (y + 1) \<le> d"
  define a b c where "a = (y - 1968) div 4" and "b = (y - 1900) div 100"
    and "c = (y - 1600) div 400"
  define a' b' c' where "a' = (y - 1967) div 4" and "b' = (y - 1899) div 100"
    and "c' = (y - 1599) div 400"
  have "a \<le> a'"
    unfolding a_def a'_def by (rule zdiv_mono1) simp_all
  moreover have "b' \<le> (y - 1900 + 100) div 100"
    unfolding b'_def by (rule zdiv_mono1) simp_all
  then have "b' \<le> b + 1"
    by (simp add: b_def)
  moreover have "c \<le> c'"
    unfolding c_def c'_def by (rule zdiv_mono1) simp_all
  moreover have "DayFromYear (y + 1) = 365 * (y - 1969) + a - b + c"
    by (simp add: DayFromYear_def a_def b_def c_def)
  moreover have "DayFromYear (y + 1 + 1) = 365 * (y - 1968) + a' - b' + c'"
    by (simp add: DayFromYear_def a'_def b'_def c'_def)
  ultimately have "DayFromYear (y + 1) < DayFromYear (y + 1 + 1)"
    by (simp add: algebra_simps)
  with le show "((y + 1, d), (y, d)) \<in> measure (\<lambda>(y, d). nat (d - DayFromYear (y + 1) + 1))"
    by simp
qed

definition year_start :: "int \<Rightarrow> int" where
  "year_start d = 1970 + (if 0 \<le> d then d div 366 else d div 365)"

definition YearFromTime :: "int \<Rightarrow> int" where
  "YearFromTime t = year_search (year_start (Day t)) (Day t)"

definition InLeapYear :: "int \<Rightarrow> int" where
  "InLeapYear t = (if DaysInYear (YearFromTime t) = 366 then 1 else 0)"

definition DayWithinYear :: "int \<Rightarrow> int" where
  "DayWithinYear t = Day t - DayFromYear (YearFromTime t)"

definition MonthFromTime :: "int \<Rightarrow> int" where
  "MonthFromTime t =
     (let d = DayWithinYear t; l = InLeapYear t in
      if d < 31 then 0
      else if d < 59 + l then 1
      else if d < 90 + l then 2
      else if d < 120 + l then 3
      else if d < 151 + l then 4
      else if d < 181 + l then 5
      else if d < 212 + l then 6
      else if d < 243 + l then 7
      else if d < 273 + l then 8
      else if d < 304 + l then 9
      else if d < 334 + l then 10
      else 11)"

definition DateFromTime :: "int \<Rightarrow> int" where
  "DateFromTime t =
     (let d = DayWithinYear t; l = InLeapYear t; m = MonthFromTime t in
      if m = 0 then d + 1
      else if m = 1 then d - 30
      else if m = 2 then d - 58 - l
      else if m = 3 then d - 89 - l
      else if m = 4 then d - 119 - l
      else if m = 5 then d - 150 - l
      else if m = 6 then d - 180 - l
      else if m = 7 then d - 211 - l
      else if m = 8 then d - 242 - l
      else if m = 9 then d - 272 - l
      else if m = 10 then d - 303 - l
      else d - 333 - l)"

definition MakeTime :: "int \<Rightarrow> int \<Rightarrow> int \<Rightarrow> int \<Rightarrow> int" where
  "MakeTime h m s ms = h * 3600000 + m * 60000 + s * 1000 + ms"

text \<open>
  \<open>MakeDay\<close> asks for a day whose year is \<open>ym\<close>, whose month is \<open>mn\<close> and whose date
  is 1: that is the first day of the year plus the days of the months before \<open>mn\<close>.
\<close>

definition DaysBeforeMonth :: "int \<Rightarrow> int \<Rightarrow> int" where
  "DaysBeforeMonth mn l =
     (if mn = 0 then 0
      else if mn = 1 then 31
      else if mn = 2 then 59 + l
      else if mn = 3 then 90 + l
      else if mn = 4 then 120 + l
      else if mn = 5 then 151 + l
      else if mn = 6 then 181 + l
      else if mn = 7 then 212 + l
      else if mn = 8 then 243 + l
      else if mn = 9 then 273 + l
      else if mn = 10 then 304 + l
      else 334 + l)"

definition MakeDay :: "int \<Rightarrow> int \<Rightarrow> int \<Rightarrow> int" where
  "MakeDay year month dt =
     (let ym = year + month div 12;
          mn = month mod 12;
          l = (if DaysInYear ym = 366 then 1 else 0)
      in DayFromYear ym + DaysBeforeMonth mn l + dt - 1)"

definition MakeDate :: "int \<Rightarrow> int \<Rightarrow> int" where
  "MakeDate day time = day * msPerDay + time"

definition getFullYear :: "Date \<Rightarrow> int" where
  "getFullYear d = YearFromTime d"

definition getMonth :: "Date \<Rightarrow> int" where
  "getMonth d = MonthFromTime d"

definition getDate :: "Date \<Rightarrow> int" where
  "getDate d = DateFromTime d"

definition setHours :: "Date \<Rightarrow> int \<Rightarrow> int \<Rightarrow> int \<Rightarrow> int \<Rightarrow> Date" where
  "setHours d h m s ms = MakeDate (Day d) (MakeTime h m s ms)"

definition setDate :: "Date \<Rightarrow> int \<Rightarrow> Date" where
  "setDate d dt = MakeDate (MakeDay (YearFromTime d) (MonthFromTime d) dt) (TimeWithinDay d)"

text \<open>The day key of the source, lines 64 to 69.\<close>

definition dateKey :: "Date \<Rightarrow> string" where
  "dateKey d =
     (let y = getFullYear d;
          m = padStart 2 CHR ''0'' (String_of_int (getMonth d + 1));
          day = padStart 2 CHR ''0'' (String_of_int (getDate d))
      in String_of_int y @ ''-'' @ m @ ''-'' @ day)"

subsection \<open>The data of the application\<close>

text \<open>
  The interfaces of lines 17 to 34. The fields \<^verbatim>\<open>id\<close>, \<^verbatim>\<open>note\<close>, \<^verbatim>\<open>name\<close> and, further
  down, \<^verbatim>\<open>total\<close> carry a suffix here. A timestamp is an integer number of
  milliseconds since the epoch.
\<close>

record ExpenseEntry =
  id_e :: string
  amount :: number
  timestamp :: int
  category :: string
  note_e :: string

record Category =
  id_c :: string
  name_c :: string
  color :: string
  icon :: string

record CurrencyOption =
  code :: string
  symbol :: string
  name_o :: string

text \<open>
  A \<^verbatim>\<open>DayBook\<close> object is the list of its properties, key and value, in the order
  in which JavaScript enumerates them. The keys of a list that stands for an object
  are distinct. Every key that the program writes comes from \<^verbatim>\<open>dateKey\<close> and holds a
  hyphen, so it is no array index, and such keys are enumerated in the order of their
  creation.
\<close>

type_synonym DayBook = "(string \<times> ExpenseEntry list) list"

definition Object_keys :: "DayBook \<Rightarrow> string list" where
  "Object_keys bk = map fst bk"

definition Object_values :: "DayBook \<Rightarrow> ExpenseEntry list list" where
  "Object_values bk = map snd bk"

text \<open>
  \<^verbatim>\<open>{ ...prev, [k]: v }\<close>: a copy of \<^verbatim>\<open>prev\<close> in which \<open>k\<close> holds \<open>v\<close>. A key that \<^verbatim>\<open>prev\<close>
  has keeps its place, a new key comes last.
\<close>

fun spread_with :: "DayBook \<Rightarrow> string \<Rightarrow> ExpenseEntry list \<Rightarrow> DayBook" where
  "spread_with [] k v = [(k, v)]"
| "spread_with ((k', v') # rest) k v =
     (if k' = k then (k, v) # rest else (k', v') # spread_with rest k v)"

text \<open>
  \<^verbatim>\<open>book[key] || []\<close> and \<^verbatim>\<open>prev[key] ? [...prev[key]] : []\<close>: the bucket under a key,
  or the empty list when the key is absent (an array, even an empty one, is truthy).
\<close>

definition bucket :: "DayBook \<Rightarrow> string \<Rightarrow> ExpenseEntry list" where
  "bucket bk key = (case map_of bk key of Some arr \<Rightarrow> arr | None \<Rightarrow> [])"

text \<open>\<^verbatim>\<open>entries.reduce((acc, e) => acc + e.amount, 0)\<close>.\<close>

definition reduce_amounts :: "ExpenseEntry list \<Rightarrow> number" where
  "reduce_amounts es = foldl (\<lambda>acc e. js_add acc (amount e)) (Num 0) es"

definition DEFAULT_CATEGORIES :: "Category list" where
  "DEFAULT_CATEGORIES =
     [\<lparr>id_c = ''food'', name_c = ''Food'', color = ''#ef4444'',
        icon = [CHR 0xF0, CHR 0x9F, CHR 0x8D, CHR 0x94]\<rparr>,
      \<lparr>id_c = ''transport'', name_c = ''Transport'', color = ''#3b82f6'',
        icon = [CHR 0xF0, CHR 0x9F, CHR 0x9A, CHR 0x97]\<rparr>,
      \<lparr>id_c = ''entertainment'', name_c = ''Entertainment'', color = ''#8b5cf6'',
        icon = [CHR 0xF0, CHR 0x9F, CHR 0x8E, CHR 0xAC]\<rparr>,
      \<lparr>id_c = ''shopping'', name_c = ''Shopping'', color = ''#10b981'',
        icon = [CHR 0xF0, CHR 0x9F, CHR 0x9B, CHR 0x8D, CHR 0xEF, CHR 0xB8, CHR 0x8F]\<rparr>,
      \<lparr>id_c = ''health'', name_c = ''Health'', color = ''#f59e0b'',
        icon = [CHR 0xF0, CHR 0x9F, CHR 0x92, CHR 0x8A]\<rparr>,
      \<lparr>id_c = ''other'', name_c = ''Other'', color = ''#6b7280'',
        icon = [CHR 0xF0, CHR 0x9F, CHR 0x93, CHR 0x9D]\<rparr>]"

definition CURRENCY_OPTIONS :: "CurrencyOption list" where
  "CURRENCY_OPTIONS =
     [\<lparr>code = ''USD'', symbol = ''$'', name_o = ''US Dollar''\<rparr>,
      \<lparr>code = ''EUR'', symbol = [CHR 0xE2, CHR 0x82, CHR 0xAC], name_o = ''Euro''\<rparr>,
      \<lparr>code = ''GBP'', symbol = [CHR 0xC2, CHR 0xA3], name_o = ''British Pound''\<rparr>,
      \<lparr>code = ''JPY'', symbol = [CHR 0xC2, CHR 0xA5], name_o = ''Japanese Yen''\<rparr>,
      \<lparr>code = ''CAD'', symbol = ''C$'', name_o = ''Canadian Dollar''\<rparr>,
      \<lparr>code = ''AUD'', symbol = ''A$'', name_o = ''Australian Dollar''\<rparr>]"

text \<open>The state of the component \<^verbatim>\<open>App\<close>, one field for each \<^verbatim>\<open>useState\<close> (lines 87 to 98).\<close>

record app_state =
  dailyBudget :: number
  quickAmounts :: "number list"
  book :: DayBook
  customAmount :: string
  showSettings :: bool
  categories :: "Category list"
  selectedCategory :: string
  expenseNote :: string
  showAddExpense :: bool
  currency :: CurrencyOption
  showSplash :: bool
  todayKey :: string

text \<open>The initial values; \<open>now\<close> is what \<^verbatim>\<open>new Date()\<close> gives when the component mounts.\<close>

definition initial_state :: "Date \<Rightarrow> app_state" where
  "initial_state now =
     \<lparr>dailyBudget = Num 30,
      quickAmounts = [Num 2, Num 5, Num 10, Num 20],
      book = [],
      customAmount = [],
      showSettings = False,
      categories = DEFAULT_CATEGORIES,
      selectedCategory = ''food'',
      expenseNote = [],
      showAddExpense = False,
      currency = hd CURRENCY_OPTIONS,
      showSplash = True,
      todayKey = dateKey now\<rparr>"

subsection \<open>Derived values\<close>

definition todayEntries :: "app_state \<Rightarrow> ExpenseEntry list" where
  "todayEntries s = bucket (book s) (todayKey s)"

definition todayTotal :: "app_state \<Rightarrow> number" where
  "todayTotal s = reduce_amounts (todayEntries s)"

text \<open>
  Lines 128 and 129, as functions of the budget and of today's total:
  \<^verbatim>\<open>Math.max(0, dailyBudget - todayTotal)\<close> and
  \<^verbatim>\<open>dailyBudget > 0 ? Math.min(1, todayTotal / dailyBudget) : 0\<close>.
\<close>

definition remaining :: "number \<Rightarrow> number \<Rightarrow> number" where
  "remaining budget spent = Math_max (Num 0) (js_sub budget spent)"

definition progress :: "number \<Rightarrow> number \<Rightarrow> number option" where
  "progress budget spent =
     (if js_gt budget (Num 0)
      then (case js_div spent budget of
              None \<Rightarrow> None
            | Some q \<Rightarrow> Some (Math_min (Num 1) q))
      else Some (Num 0))"

text \<open>
  \<^verbatim>\<open>spendingSummary\<close>, lines 132 to 149. \<open>tz\<close> is \<^verbatim>\<open>new Date(ms)\<close> in the device's zone: it
  takes an epoch timestamp to the date with that instant. \<open>now\<close> is \<^verbatim>\<open>new Date()\<close>.
\<close>

record summary =
  averageDaily :: "number option"
  thisMonthTotal :: number
  totalSpent :: number

definition spendingSummary :: "(int \<Rightarrow> Date) \<Rightarrow> Date \<Rightarrow> DayBook \<Rightarrow> summary" where
  "spendingSummary tz now bk =
     (let allEntries = concat (Object_values bk);
          spent = reduce_amounts allEntries;
          totalDays = (let n = length (Object_keys bk) in if n = 0 then 1 else n);
          average = js_div spent (Num (real totalDays));
          thisMonth = getMonth now;
          thisYear = getFullYear now;
          thisMonthEntries =
            filter (\<lambda>entry. let entryDate = tz (timestamp entry)
                            in getMonth entryDate = thisMonth \<and> getFullYear entryDate = thisYear)
              allEntries;
          monthTotal = reduce_amounts thisMonthEntries
      in \<lparr>averageDaily = average, thisMonthTotal = monthTotal, totalSpent = spent\<rparr>)"

text \<open>
  \<^verbatim>\<open>last7Totals\<close>, lines 152 to 164. The loop counts \<open>i\<close> down from 6 to 0 and reads the
  clock anew in each round: \<open>clock i\<close> is the \<^verbatim>\<open>new Date()\<close> of round \<open>i\<close>.
\<close>

record day_total =
  date :: Date
  total_d :: number

function last7_loop :: "(int \<Rightarrow> Date) \<Rightarrow> DayBook \<Rightarrow> int \<Rightarrow> day_total list \<Rightarrow> day_total list" where
  "last7_loop clock bk i arr =
     (if 0 \<le> i
      then (let d0 = clock i;
                d1 = setHours d0 0 0 0 0;
                d = setDate d1 (getDate d1 - i);
                key = dateKey d;
                t = reduce_amounts (bucket bk key)
            in last7_loop clock bk (i - 1) (arr @ [\<lparr>date = d, total_d = t\<rparr>]))
      else arr)"
  by pat_completeness auto
termination
  by (relation "measure (\<lambda>(clock, bk, i, arr). nat (i + 1))") auto

definition last7Totals :: "(int \<Rightarrow> Date) \<Rightarrow> DayBook \<Rightarrow> day_total list" where
  "last7Totals clock bk = last7_loop clock bk 6 []"

subsection \<open>Mutations of the ledger\<close>

text \<open>The effect of lines 196 to 201, which runs when \<^verbatim>\<open>todayKey\<close> changes.\<close>

definition ensureToday :: "app_state \<Rightarrow> app_state" where
  "ensureToday s =
     (case map_of (book s) (todayKey s) of
        Some arr \<Rightarrow> s
      | None \<Rightarrow> s\<lparr>book := spread_with (book s) (todayKey s) []\<rparr>)"

text \<open>
  \<^verbatim>\<open>addAmount\<close>, lines 203 to 219. \<open>rnd\<close> is the string
  \<^verbatim>\<open>Math.random().toString(36).slice(2)\<close> and \<open>now_ms\<close> is \<^verbatim>\<open>Date.now()\<close>. An argument left
  out in the call is \<open>None\<close>: the category then is \<^verbatim>\<open>selectedCategory\<close>, the note empty.
  The haptic feedback changes no state and is left out.
\<close>

definition addAmount ::
  "string \<Rightarrow> int \<Rightarrow> number \<Rightarrow> string option \<Rightarrow> string option \<Rightarrow> app_state \<Rightarrow> app_state" where
  "addAmount rnd now_ms amt cat nt s =
     (if \<not> js_gt amt (Num 0) then s
      else
        (let arr = bucket (book s) (todayKey s);
             arr' = arr @ [\<lparr>id_e = rnd, amount = amt, timestamp = now_ms,
                           category = (case cat of None \<Rightarrow> selectedCategory s | Some c \<Rightarrow> c),
                           note_e = (case nt of None \<Rightarrow> [] | Some n \<Rightarrow> n)\<rparr>]
         in s\<lparr>book := spread_with (book s) (todayKey s) arr',
              expenseNote := [],
              showAddExpense := False\<rparr>))"

text \<open>\<^verbatim>\<open>deleteExpense\<close>, lines 221 to 227.\<close>

definition deleteExpense :: "string \<Rightarrow> app_state \<Rightarrow> app_state" where
  "deleteExpense expenseId s =
     (let arr = bucket (book s) (todayKey s);
          filtered = filter (\<lambda>expense. id_e expense \<noteq> expenseId) arr
      in s\<lparr>book := spread_with (book s) (todayKey s) filtered\<rparr>)"

text \<open>
  \<^verbatim>\<open>clearToday\<close>, lines 229 to 234: an alert with two buttons; only \<^verbatim>\<open>Clear\<close> has a handler.
\<close>

datatype alert_button = Cancel | Clear

definition clearToday :: "alert_button \<Rightarrow> app_state \<Rightarrow> app_state" where
  "clearToday pressed s =
     (case pressed of
        Cancel \<Rightarrow> s
      | Clear \<Rightarrow> s\<lparr>book := spread_with (book s) (todayKey s) []\<rparr>)"

subsection \<open>CSV export\<close>

text \<open>
  The CSV branch of \<^verbatim>\<open>exportData\<close>, lines 245 to 280: the name and the content of the
  file offered for download. \<^verbatim>\<open>Array.prototype.sort\<close> is stable, and so is \<open>sort_key\<close>;
  the comparator \<^verbatim>\<open>b.timestamp - a.timestamp\<close> orders by falling timestamp.
  \<open>toLocaleDateString\<close> is the platform's, in the locale of the device. The download
  itself, through a link of the document, and the alert of the \<^verbatim>\<open>catch\<close> branch are not
  modelled.
\<close>

definition csv_row :: "(int \<Rightarrow> Date) \<Rightarrow> (Date \<Rightarrow> string) \<Rightarrow> ExpenseEntry \<Rightarrow> string" where
  "csv_row tz toLocaleDateString entry =
     (let d = toLocaleDateString (tz (timestamp entry));
          a = Number_toFixed (amount entry) 2;
          c = category entry;
          n = replace_commas (note_e entry)
      in d @ '','' @ a @ '','' @ c @ '','' @ n)"

definition sortedEntries :: "DayBook \<Rightarrow> ExpenseEntry list" where
  "sortedEntries bk = sort_key (\<lambda>e. - timestamp e) (concat (Object_values bk))"

definition exportData_csv ::
  "(int \<Rightarrow> Date) \<Rightarrow> (Date \<Rightarrow> string) \<Rightarrow> Date \<Rightarrow> DayBook \<Rightarrow> string \<times> string" where
  "exportData_csv tz toLocaleDateString now bk =
     (let headers = ''Date,Amount,Category,Note'' @ [CHR 0x0A];
          csvRows = map (csv_row tz toLocaleDateString) (sortedEntries bk);
          csvContent = headers @ join [CHR 0x0A] csvRows
      in (''expenses-'' @ dateKey now @ ''.csv'', csvContent))"

subsection \<open>Notions used in the statements\<close>

text \<open>The sum of the amounts of a list of entries, entry by entry.\<close>

primrec sum_amounts :: "ExpenseEntry list \<Rightarrow> number" where
  "sum_amounts [] = Num 0"
| "sum_amounts (e # es) = js_add (amount e) (sum_amounts es)"

text \<open>The real behind an amount that is a number.\<close>

fun real_of :: "number \<Rightarrow> real" where
  "real_of (Num x) = x"
| "real_of NaN = 0"

text \<open>The shapes of strings that the statements speak of.\<close>

definition is_digit :: "char \<Rightarrow> bool" where
  "is_digit c \<longleftrightarrow> c \<in> set ''0123456789''"

text \<open>Four digits, a hyphen, two digits, a hyphen, two digits.\<close>

fun is_YYYY_MM_DD :: "string \<Rightarrow> bool" where
  "is_YYYY_MM_DD [y1, y2, y3, y4, h1, m1, m2, h2, d1, d2] \<longleftrightarrow>
     is_digit y1 \<and> is_digit y2 \<and> is_digit y3 \<and> is_digit y4 \<and> h1 = CHR ''-'' \<and>
     is_digit m1 \<and> is_digit m2 \<and> h2 = CHR ''-'' \<and> is_digit d1 \<and> is_digit d2"
| "is_YYYY_MM_DD _ \<longleftrightarrow> False"

text \<open>An optional minus sign, one digit or more, a point, two digits.\<close>

definition two_decimals :: "string \<Rightarrow> bool" where
  "two_decimals s \<longleftrightarrow>
     (let b = (case s of [] \<Rightarrow> [] | c # r \<Rightarrow> if c = CHR ''-'' then r else s);
          k = length b
      in 3 < k \<and> list_all is_digit (take (k - 3) b) \<and> b ! (k - 3) = CHR ''.'' \<and>
         is_digit (b ! (k - 2)) \<and> is_digit (b ! (k - 1)))"

text \<open>The number that a string of digits writes.\<close>

definition digit_value :: "char \<Rightarrow> nat" where
  "digit_value c = of_char c - 48"

definition digits_value :: "string \<Rightarrow> nat" where
  "digits_value s = foldl (\<lambda>a c. 10 * a + digit_value c) 0 s"

text \<open>
  The amounts that \<^verbatim>\<open>toFixed\<close> prints in fixed notation: the numbers of magnitude below
  \<open>10\<^sup>2\<^sup>1\<close>.
\<close>

definition fixed_range :: "number \<Rightarrow> bool" where
  "fixed_range v \<longleftrightarrow> (case v of NaN \<Rightarrow> False | Num x \<Rightarrow> \<bar>x\<bar> < 10 ^ 21)"

text \<open>Every amount in the ledger is a number above zero.\<close>

definition amounts_positive :: "DayBook \<Rightarrow> bool" where
  "amounts_positive bk \<longleftrightarrow> list_all (\<lambda>e. js_gt (amount e) (Num 0)) (concat (Object_values bk))"

text \<open>
  What a mutation of the ledger must leave alone, seen from a day key \<open>k\<close>: the bucket
  under \<open>k\<close>, or its absence, and the four settings.
\<close>

definition untouched_at :: "string \<Rightarrow> app_state \<Rightarrow> app_state \<Rightarrow> bool" where
  "untouched_at k s s' \<longleftrightarrow>
     map_of (book s') k = map_of (book s) k \<and>
     dailyBudget s' = dailyBudget s \<and>
     quickAmounts s' = quickAmounts s \<and>
     categories s' = categories s \<and>
     currency s' = currency s"

text \<open>
  A state for the examples: on 2 January 2024 the ledger written on 1 January has been
  restored from storage (lines 167 to 186), which replaces the book that the effect of
  lines 196 to 201 had prepared, so the day has no bucket yet.
\<close>

definition coffee :: ExpenseEntry where
  "coffee = \<lparr>id_e = ''k3x9f1'', amount = Num 10, timestamp = 1704100000000,
             category = ''food'', note_e = ''coffee, latte''\<rparr>"

definition tea :: ExpenseEntry where
  "tea = \<lparr>id_e = ''q7w2'', amount = Num 4.5, timestamp = 1704190000000,
          category = ''food'', note_e = ''tea''\<rparr>"

definition restored_state :: app_state where
  "restored_state = (initial_state (19724 * msPerDay))\<lparr>book := [(''2024-01-01'', [coffee])]\<rparr>"

text \<open>
  The same ledger with the application started on 1 January 2024: the day has a bucket,
  and the coffee is in it.
\<close>

definition coffee_state :: app_state where
  "coffee_state = (initial_state (19723 * msPerDay))\<lparr>book := [(''2024-01-01'', [coffee])]\<rparr>"

text \<open>
  An entry of \<open>10\<^sup>2\<^sup>1\<close>, which is a binary64 value and passes both guards on amounts
  (line 204 and line 390).
\<close>

definition fortune :: ExpenseEntry where
  "fortune = \<lparr>id_e = ''z1'', amount = Num 1000000000000000000000, timestamp = 1704190000000,
              category = ''other'', note_e = []\<rparr>"

section \<open>Properties\<close>

subsection \<open>The ledger as an object\<close>

lemma map_of_spread_with:
  "map_of (spread_with bk k v) k' = (if k' = k then Some v else map_of bk k')"
  by (induction bk k v rule: spread_with.induct) auto

lemma spread_with_same:
  "map_of bk k = Some v \<Longrightarrow> spread_with bk k v = bk"
  by (induction bk k v rule: spread_with.induct) (auto split: if_splits)

lemma spread_with_absent:
  "map_of bk k = None \<Longrightarrow> spread_with bk k v = bk @ [(k, v)]"
  by (induction bk k v rule: spread_with.induct) (auto split: if_splits)

lemma spread_with_twice:
  "spread_with (spread_with bk k v) k w = spread_with bk k w"
  by (induction bk k v rule: spread_with.induct) auto

lemma keys_spread_with:
  "set (Object_keys (spread_with bk k v)) = insert k (set (Object_keys bk))"
  by (induction bk k v rule: spread_with.induct) (auto simp: Object_keys_def)

text \<open>
  The spread keeps the keys of an object distinct.
\<close>

lemma distinct_spread_with:
  "distinct (Object_keys bk) \<Longrightarrow> distinct (Object_keys (spread_with bk k v))"
proof (induction bk k v rule: spread_with.induct)
  case (1 k v)
  then show ?case by (simp add: Object_keys_def)
next
  case (2 k' v' rest k v)
  then show ?case
    using keys_spread_with[of rest k v] by (auto simp: Object_keys_def)
qed

lemma bucket_spread_with:
  "bucket (spread_with bk k v) k' = (if k' = k then v else bucket bk k')"
  by (simp add: bucket_def map_of_spread_with)

lemma js_gt_zero_iff: "js_gt a (Num 0) \<longleftrightarrow> (\<exists>x. a = Num x \<and> 0 < x)"
  by (cases a) auto

lemma filter_absent_id:
  "expenseId \<notin> id_e ` set arr \<Longrightarrow> filter (\<lambda>expense. id_e expense \<noteq> expenseId) arr = arr"
  by (induction arr) auto

subsection \<open>Sums of amounts\<close>

text \<open>
  The \<^verbatim>\<open>reduce\<close> of the source, a fold from the left, is the sum of the amounts.
\<close>

lemma js_add_assoc: "js_add (js_add a b) c = js_add a (js_add b c)"
  by (cases a; cases b; cases c) simp_all

lemma js_add_zero_left: "js_add (Num 0) a = a"
  by (cases a) simp_all

lemma js_add_zero_right: "js_add a (Num 0) = a"
  by (cases a) simp_all

lemma foldl_amounts:
  "foldl (\<lambda>acc e. js_add acc (amount e)) a es = js_add a (sum_amounts es)"
  by (induction es arbitrary: a) (simp_all add: js_add_zero_right js_add_assoc)

lemma reduce_amounts_sum: "reduce_amounts es = sum_amounts es"
  by (simp add: reduce_amounts_def foldl_amounts js_add_zero_left)

lemma sum_amounts_append: "sum_amounts (xs @ ys) = js_add (sum_amounts xs) (sum_amounts ys)"
  by (induction xs) (simp_all add: js_add_zero_left js_add_assoc)

lemma sum_amounts_real:
  "NaN \<notin> amount ` set es \<Longrightarrow> sum_amounts es = Num (\<Sum>e\<leftarrow>es. real_of (amount e))"
proof (induction es)
  case Nil
  then show ?case by simp
next
  case (Cons e es)
  then obtain x where "amount e = Num x"
    by (cases "amount e") auto
  with Cons show ?case by simp
qed

lemma totalDays_max: "(let n = length ks in if n = 0 then 1 else n) = max 1 (length ks)"
  by (cases ks) (simp_all add: Let_def max_def)

lemma averageDaily_eq:
  "averageDaily (spendingSummary tz now bk)
     = js_div (sum_amounts (concat (Object_values bk)))
         (Num (real (max 1 (length (Object_keys bk)))))"
  using totalDays_max [of "Object_keys bk"]
  by (simp add: spendingSummary_def reduce_amounts_sum Let_def)

text \<open>
  The ledger starts empty, and no callback brings in an amount that is not positive:
  the amounts of a ledger that the program has built are numbers.
\<close>

lemma amounts_positive_spread:
  assumes "amounts_positive bk" "list_all (\<lambda>e. js_gt (amount e) (Num 0)) v"
  shows "amounts_positive (spread_with bk k v)"
  using assms
  by (induction bk k v rule: spread_with.induct)
    (auto simp: amounts_positive_def Object_values_def)

lemma amounts_positive_bucket:
  assumes "amounts_positive bk"
  shows "list_all (\<lambda>e. js_gt (amount e) (Num 0)) (bucket bk k)"
proof (cases "map_of bk k")
  case None
  then show ?thesis
    by (simp add: bucket_def)
next
  case (Some v)
  then have "(k, v) \<in> set bk"
    by (rule map_of_SomeD)
  then have "set v \<subseteq> set (concat (Object_values bk))"
    by (force simp: Object_values_def)
  with assms Some show ?thesis
    by (auto simp: amounts_positive_def bucket_def list_all_iff simp del: set_concat)
qed

lemma amounts_positive_invariant:
  "amounts_positive (book (initial_state now))"
  "amounts_positive (book s) \<Longrightarrow> amounts_positive (book (ensureToday s))"
  "amounts_positive (book s) \<Longrightarrow> amounts_positive (book (addAmount rnd now_ms amt cat nt s))"
  "amounts_positive (book s) \<Longrightarrow> amounts_positive (book (deleteExpense expenseId s))"
  "amounts_positive (book s) \<Longrightarrow> amounts_positive (book (clearToday pressed s))"
proof -
  show "amounts_positive (book (initial_state now))"
    by (simp add: initial_state_def amounts_positive_def Object_values_def)
  assume p: "amounts_positive (book s)"
  note b = amounts_positive_bucket [OF p, of "todayKey s"]
  show "amounts_positive (book (ensureToday s))"
    using p by (simp add: ensureToday_def amounts_positive_spread split: option.splits)
  show "amounts_positive (book (addAmount rnd now_ms amt cat nt s))"
    using p b by (simp add: addAmount_def Let_def amounts_positive_spread)
  show "amounts_positive (book (deleteExpense expenseId s))"
    using p b by (simp add: deleteExpense_def Let_def amounts_positive_spread list_all_iff)
  show "amounts_positive (book (clearToday pressed s))"
    using p by (cases pressed) (simp_all add: clearToday_def amounts_positive_spread)
qed

lemma amounts_positive_not_NaN:
  "amounts_positive bk \<Longrightarrow> NaN \<notin> amount ` set (concat (Object_values bk))"
  by (auto simp: amounts_positive_def list_all_iff simp del: set_concat)

subsection \<open>The calendar\<close>

text \<open>
  The year found by the search is the year of ECMA-262: its first day is not after the
  day of \<open>t\<close>, the first day of the next year is, and no other year has both. From
  this, the day within the year, the month and the date are in their ranges, and the
  day is the first day of its year plus the days of the months before its month plus
  its date minus one.
\<close>

lemma div_succ:
  fixes a k :: int
  assumes "0 < k"
  shows "(a + 1) div k = a div k + (if k dvd a + 1 then 1 else 0)"
proof -
  define q r where "q = a div k" and "r = a mod k"
  have a: "a = k * q + r"
    by (simp add: q_def r_def)
  have r: "0 \<le> r" "r < k"
    using assms by (simp_all add: r_def)
  show ?thesis
  proof (cases "r + 1 = k")
    case True
    then have eq: "a + 1 = k * (q + 1)"
      using a by (simp add: algebra_simps)
    then have "(a + 1) div k = q + 1"
      using assms by simp
    moreover have "k dvd a + 1"
      using eq by simp
    ultimately show ?thesis
      by (simp add: q_def)
  next
    case False
    with r have lt: "r + 1 < k"
      by simp
    have eq: "a + 1 = k * q + (r + 1)"
      using a by simp
    from r(1) lt have "(a + 1) div k = q" "(a + 1) mod k = r + 1"
      by (simp_all add: int_div_pos_eq [OF eq] int_mod_pos_eq [OF eq])
    moreover from this r(1) have "\<not> k dvd a + 1"
      by (simp add: dvd_eq_mod_eq_0)
    ultimately show ?thesis
      by (simp add: q_def)
  qed
qed

lemma dvd_shift:
  fixes y k c :: int
  shows "k dvd y - k * c \<longleftrightarrow> k dvd y"
  by (metis dvd_diff_commute dvd_minus_iff dvd_triv_left dvd_add_right_iff uminus_add_conv_diff diff_conv_add_uminus add.commute)

lemma DayFromYear_Suc: "DayFromYear (y + 1) = DayFromYear y + DaysInYear y"
proof -
  have a: "(y - 1968) div 4 = (y - 1969) div 4 + (if 4 dvd y then 1 else 0)"
    using div_succ [of 4 "y - 1969"] dvd_shift [of 4 y 492] by simp
  have b: "(y - 1900) div 100 = (y - 1901) div 100 + (if 100 dvd y then 1 else 0)"
    using div_succ [of 100 "y - 1901"] dvd_shift [of 100 y 19] by simp
  have c: "(y - 1600) div 400 = (y - 1601) div 400 + (if 400 dvd y then 1 else 0)"
    using div_succ [of 400 "y - 1601"] dvd_shift [of 400 y 4] by simp
  have m1: "4 dvd y" if "100 dvd y"
    using that by (rule dvd_trans [rotated]) simp
  have m2: "100 dvd y" if "400 dvd y"
    using that by (rule dvd_trans [rotated]) simp
  have "DayFromYear (y + 1)
      = 365 * (y - 1969) + (y - 1968) div 4 - (y - 1900) div 100 + (y - 1600) div 400"
    by (simp add: DayFromYear_def)
  then show ?thesis
    using m1 m2 by (simp add: a b c DayFromYear_def DaysInYear_def mod_eq_0_iff_dvd)
qed

lemma DaysInYear_cases: "DaysInYear y = 365 \<or> DaysInYear y = 366"
  by (simp add: DaysInYear_def)

lemma DaysInYear_pos: "0 < DaysInYear y"
  by (simp add: DaysInYear_def)

lemma DayFromYear_mono: "y \<le> y' \<Longrightarrow> DayFromYear y \<le> DayFromYear y'"
proof (induction y' rule: int_ge_induct)
  case base
  show ?case by simp
next
  case (step i)
  with DayFromYear_Suc [of i] DaysInYear_pos [of i] show ?case
    by simp
qed

lemma year_search_bounds:
  "DayFromYear y \<le> d \<Longrightarrow>
     DayFromYear (year_search y d) \<le> d \<and> d < DayFromYear (year_search y d + 1)"
proof (induction y d rule: year_search.induct)
  case (1 y d)
  show ?case
  proof (cases "DayFromYear (y + 1) \<le> d")
    case True
    with "1.IH" have "DayFromYear (year_search (y + 1) d) \<le> d \<and>
        d < DayFromYear (year_search (y + 1) d + 1)"
      by simp
    moreover from True have "year_search y d = year_search (y + 1) d"
      by (subst year_search.simps) simp
    ultimately show ?thesis
      by simp
  next
    case False
    then have "year_search y d = y"
      by (subst year_search.simps) simp
    with False "1.prems" show ?thesis
      by simp
  qed
qed

lemma leap_terms_bound:
  fixes q :: int
  defines "a \<equiv> (q + 1) div 4" and "b \<equiv> (q + 69) div 100" and "c \<equiv> (q + 369) div 400"
  shows "0 \<le> q \<Longrightarrow> a - b + c \<le> q" and "q < 0 \<Longrightarrow> a - b + c \<le> 0"
proof -
  have "q + 1 = 4 * a + (q + 1) mod 4" "0 \<le> (q + 1) mod 4"
    by (simp_all add: a_def)
  then have a: "4 * a \<le> q + 1"
    by linarith
  have "q + 69 = 100 * b + (q + 69) mod 100" "(q + 69) mod 100 < 100"
    by (simp_all add: b_def)
  then have b: "q - 30 \<le> 100 * b"
    by linarith
  have "q + 369 = 400 * c + (q + 369) mod 400" "0 \<le> (q + 369) mod 400"
    by (simp_all add: c_def)
  then have c: "400 * c \<le> q + 369"
    by linarith
  show "a - b + c \<le> q" if "0 \<le> q"
  proof (cases "q = 0")
    case True
    with a b c have "a \<le> 0" "0 \<le> b" "c \<le> 0"
      by linarith+
    with True show ?thesis
      by linarith
  next
    case False
    with that have "1 \<le> q"
      by simp
    with a b c show ?thesis
      by linarith
  qed
  show "a - b + c \<le> 0" if "q < 0"
  proof (cases "q = - 1")
    case True
    with a b c have "a \<le> 0" "0 \<le> b" "c \<le> 0"
      by linarith+
    then show ?thesis
      by linarith
  next
    case False
    with that have "q \<le> - 2"
      by simp
    with a b c show ?thesis
      by linarith
  qed
qed

lemma year_start_le: "DayFromYear (year_start d) \<le> d"
proof (cases "0 \<le> d")
  case True
  define q where "q = d div 366"
  have q: "0 \<le> q"
    using True by (simp add: q_def pos_imp_zdiv_nonneg_iff)
  have "d = 366 * q + d mod 366" "0 \<le> d mod 366"
    by (simp_all add: q_def)
  then have d: "366 * q \<le> d"
    by linarith
  have "DayFromYear (year_start d)
      = 365 * q + ((q + 1) div 4 - (q + 69) div 100 + (q + 369) div 400)"
    using True by (simp add: year_start_def DayFromYear_def q_def add.commute)
  with leap_terms_bound(1) [OF q] d show ?thesis
    by linarith
next
  case False
  define q where "q = d div 365"
  have q: "q < 0"
    using False by (simp add: q_def div_neg_pos_less0)
  have "d = 365 * q + d mod 365" "0 \<le> d mod 365"
    by (simp_all add: q_def)
  then have d: "365 * q \<le> d"
    by linarith
  have "DayFromYear (year_start d)
      = 365 * q + ((q + 1) div 4 - (q + 69) div 100 + (q + 369) div 400)"
    using False by (simp add: year_start_def DayFromYear_def q_def add.commute)
  with leap_terms_bound(2) [OF q] d show ?thesis
    by linarith
qed

lemma YearFromTime_bounds:
  "DayFromYear (YearFromTime t) \<le> Day t" "Day t < DayFromYear (YearFromTime t + 1)"
  using year_search_bounds [OF year_start_le, of "Day t"] by (simp_all add: YearFromTime_def)

lemma YearFromTime_unique:
  assumes "DayFromYear y \<le> Day t" "Day t < DayFromYear (y + 1)"
  shows "YearFromTime t = y"
proof (rule ccontr)
  assume ne: "YearFromTime t \<noteq> y"
  note b = YearFromTime_bounds [of t]
  show False
  proof (cases "YearFromTime t < y")
    case True
    then have "DayFromYear (YearFromTime t + 1) \<le> DayFromYear y"
      by (intro DayFromYear_mono) simp
    with b(2) assms(1) show False by simp
  next
    case False
    with ne have "DayFromYear (y + 1) \<le> DayFromYear (YearFromTime t)"
      by (intro DayFromYear_mono) simp
    with b(1) assms(2) show False by simp
  qed
qed

lemma DayWithinYear_bounds:
  "0 \<le> DayWithinYear t" "DayWithinYear t < 365 + InLeapYear t"
proof -
  show "0 \<le> DayWithinYear t"
    using YearFromTime_bounds(1) [of t] by (simp add: DayWithinYear_def)
  have "DaysInYear (YearFromTime t) = 365 + InLeapYear t"
    using DaysInYear_cases [of "YearFromTime t"] by (auto simp: InLeapYear_def)
  then show "DayWithinYear t < 365 + InLeapYear t"
    using YearFromTime_bounds(2) [of t] DayFromYear_Suc [of "YearFromTime t"]
    by (simp add: DayWithinYear_def)
qed

lemma InLeapYear_cases: "InLeapYear t = 0 \<or> InLeapYear t = 1"
  by (simp add: InLeapYear_def)

lemma MonthFromTime_range: "0 \<le> MonthFromTime t" "MonthFromTime t \<le> 11"
  by (simp_all add: MonthFromTime_def Let_def)

lemma Day_reconstruct:
  "DayWithinYear t = DaysBeforeMonth (MonthFromTime t) (InLeapYear t) + DateFromTime t - 1"
  by (simp add: DateFromTime_def MonthFromTime_def DaysBeforeMonth_def Let_def)

lemma DateFromTime_range: "1 \<le> DateFromTime t" "DateFromTime t \<le> 31"
  using DayWithinYear_bounds [of t] InLeapYear_cases [of t]
  by (auto simp: DateFromTime_def MonthFromTime_def Let_def)

text \<open>
  The getters read the day only, and the three of them determine it.
\<close>

lemma getters_depend_on_Day:
  assumes "Day t = Day t'"
  shows "YearFromTime t = YearFromTime t'" "MonthFromTime t = MonthFromTime t'"
    "DateFromTime t = DateFromTime t'"
proof -
  show y: "YearFromTime t = YearFromTime t'"
    using assms by (simp add: YearFromTime_def)
  have "DayWithinYear t = DayWithinYear t'" "InLeapYear t = InLeapYear t'"
    using assms y by (simp_all add: DayWithinYear_def InLeapYear_def)
  then show m: "MonthFromTime t = MonthFromTime t'"
    by (simp add: MonthFromTime_def)
  show "DateFromTime t = DateFromTime t'"
    using \<open>DayWithinYear t = DayWithinYear t'\<close> \<open>InLeapYear t = InLeapYear t'\<close> m
    by (simp add: DateFromTime_def)
qed

lemma Day_from_fields:
  "Day t = DayFromYear (YearFromTime t)
     + DaysBeforeMonth (MonthFromTime t) (InLeapYear t) + DateFromTime t - 1"
  using Day_reconstruct [of t] by (simp add: DayWithinYear_def)

lemma fields_determine_Day:
  assumes "YearFromTime t = YearFromTime t'" "MonthFromTime t = MonthFromTime t'"
    "DateFromTime t = DateFromTime t'"
  shows "Day t = Day t'"
proof -
  have "InLeapYear t = InLeapYear t'"
    using assms(1) by (simp add: InLeapYear_def)
  with assms show ?thesis
    using Day_from_fields [of t] Day_from_fields [of t'] by simp
qed

text \<open>
  The setters: midnight of a day, and a date counted from the first of the month.
\<close>

lemma MakeDay_same_month:
  "MakeDay (YearFromTime t) (MonthFromTime t) dt = Day t + (dt - DateFromTime t)"
proof -
  have "MonthFromTime t div 12 = 0" "MonthFromTime t mod 12 = MonthFromTime t"
    using MonthFromTime_range [of t] by simp_all
  then have "MakeDay (YearFromTime t) (MonthFromTime t) dt
      = DayFromYear (YearFromTime t) + DaysBeforeMonth (MonthFromTime t) (InLeapYear t) + dt - 1"
    by (simp add: MakeDay_def InLeapYear_def)
  then show ?thesis
    using Day_from_fields [of t] by simp
qed

lemma Day_MakeDate: "0 \<le> tm \<Longrightarrow> tm < msPerDay \<Longrightarrow> Day (MakeDate n tm) = n"
  by (simp add: Day_def MakeDate_def msPerDay_def)

lemma TimeWithinDay_range: "0 \<le> TimeWithinDay t" "TimeWithinDay t < msPerDay"
  by (simp_all add: TimeWithinDay_def msPerDay_def)

lemma setHours_midnight: "setHours d 0 0 0 0 = Day d * msPerDay"
  by (simp add: setHours_def MakeDate_def MakeTime_def)

lemma Day_midnight: "Day (n * msPerDay) = n"
  by (simp add: Day_def msPerDay_def)

lemma TimeWithinDay_midnight: "TimeWithinDay (n * msPerDay) = 0"
  by (simp add: TimeWithinDay_def)

lemma Day_setDate: "Day (setDate d dt) = Day d + (dt - getDate d)"
  by (simp add: setDate_def getDate_def MakeDay_same_month Day_MakeDate TimeWithinDay_range)

lemma setDate_midnight: "setDate (n * msPerDay) dt = (n + (dt - getDate (n * msPerDay))) * msPerDay"
  by (simp add: setDate_def getDate_def MakeDay_same_month TimeWithinDay_midnight MakeDate_def
      Day_midnight)

lemma days_back:
  "setDate (setHours d 0 0 0 0) (getDate (setHours d 0 0 0 0) - i) = (Day d - i) * msPerDay"
  by (simp add: setHours_midnight setDate_midnight)

lemma days_back_0:
  "setDate (setHours d 0 0 0 0) (getDate (setHours d 0 0 0 0)) = Day d * msPerDay"
  using days_back [of d 0] by simp

text \<open>
  The day that \<open>MakeDay\<close> starts from is the first of its month, as ECMA-262 asks.
\<close>

lemma DaysBeforeMonth_bounds:
  assumes "0 \<le> mn" "mn \<le> 11" "l = 0 \<or> l = 1"
  shows "0 \<le> DaysBeforeMonth mn l" "DaysBeforeMonth mn l < 365 + l"
  using assms by (auto simp: DaysBeforeMonth_def)

lemma first_of_month:
  fixes ym mn :: int
  assumes "0 \<le> mn" "mn \<le> 11"
  defines "l \<equiv> (if DaysInYear ym = 366 then 1 else 0)"
  defines "t \<equiv> (DayFromYear ym + DaysBeforeMonth mn l) * msPerDay"
  shows "YearFromTime t = ym" "MonthFromTime t = mn" "DateFromTime t = 1"
proof -
  have l: "l = 0 \<or> l = 1" "DaysInYear ym = 365 + l"
    using DaysInYear_cases [of ym] by (auto simp: l_def)
  have d: "Day t = DayFromYear ym + DaysBeforeMonth mn l"
    by (simp add: t_def Day_midnight)
  show y: "YearFromTime t = ym"
    using DaysBeforeMonth_bounds [OF assms(1,2) l(1)] l(2) DayFromYear_Suc [of ym]
    by (intro YearFromTime_unique) (simp_all add: d)
  have w: "DayWithinYear t = DaysBeforeMonth mn l" "InLeapYear t = l"
    by (simp_all add: DayWithinYear_def InLeapYear_def y d l_def)
  have "[0..11] = [0, 1, 2, 3, 4, 5, 6, 7, 8, 9, 10, 11::int]"
    by (simp add: upto.simps)
  moreover have "mn \<in> set [0..11]"
    using assms(1,2) by simp
  ultimately have "mn \<in> set [0, 1, 2, 3, 4, 5, 6, 7, 8, 9, 10, 11::int]"
    by simp
  then consider "mn = 0" | "mn = 1" | "mn = 2" | "mn = 3" | "mn = 4" | "mn = 5" | "mn = 6"
    | "mn = 7" | "mn = 8" | "mn = 9" | "mn = 10" | "mn = 11"
    by auto
  then have "MonthFromTime t = mn \<and> DateFromTime t = 1"
    using l(1) by cases (auto simp: MonthFromTime_def DateFromTime_def w DaysBeforeMonth_def)
  then show "MonthFromTime t = mn" "DateFromTime t = 1"
    by simp_all
qed

subsection \<open>Strings of digits\<close>

lemma digit_cases:
  assumes "n < 10"
  obtains "n = 0" | "n = 1" | "n = 2" | "n = 3" | "n = 4" | "n = 5" | "n = 6" | "n = 7"
    | "n = 8" | "n = (9::nat)"
proof -
  have "[0..<10] = [0, 1, 2, 3, 4, 5, 6, 7, 8, 9::nat]"
    by (simp add: upt_rec)
  moreover from assms have "n \<in> set [0..<10]"
    by simp
  ultimately have "n \<in> set [0, 1, 2, 3, 4, 5, 6, 7, 8, 9::nat]"
    by simp
  with that show ?thesis
    by auto
qed

lemma digit_char_facts:
  assumes "n < 10"
  shows "digit_value (digit_char n) = n" "is_digit (digit_char n)" "digit_char n \<noteq> CHR ''-''"
    "digit_char n \<noteq> CHR ''.''"
  using assms
  by (cases n rule: digit_cases; simp add: digit_char_def digit_value_def is_digit_def)+

lemma digit_char_0: "digit_char 0 = CHR ''0''"
  by (simp add: digit_char_def)

lemma digits_small: "n < 10 \<Longrightarrow> digits n = [digit_char n]"
  by (subst digits.simps) simp

lemma digits_large: "\<not> n < 10 \<Longrightarrow> digits n = digits (n div 10) @ [digit_char (n mod 10)]"
  by (subst digits.simps) simp

lemma digits_value_snoc: "digits_value (s @ [c]) = 10 * digits_value s + digit_value c"
  by (simp add: digits_value_def)

lemma digits_value_digits: "digits_value (digits n) = n"
proof (induction n rule: digits.induct)
  case (1 n)
  show ?case
  proof (cases "n < 10")
    case True
    then show ?thesis
      by (simp add: digits_small digits_value_def digit_char_facts)
  next
    case False
    with 1 have "digits_value (digits (n div 10)) = n div 10"
      by simp
    moreover from False have "digits n = digits (n div 10) @ [digit_char (n mod 10)]"
      by (rule digits_large)
    ultimately show ?thesis
      by (simp add: digits_value_snoc digit_char_facts)
  qed
qed

lemma digits_inj:
  assumes "digits n = digits m"
  shows "n = m"
proof -
  from assms have "digits_value (digits n) = digits_value (digits m)"
    by (rule arg_cong)
  then show ?thesis
    by (simp only: digits_value_digits)
qed

lemma digits_all_digits: "list_all is_digit (digits n)"
proof (induction n rule: digits.induct)
  case (1 n)
  show ?case
  proof (cases "n < 10")
    case True
    then show ?thesis
      by (simp add: digits_small digit_char_facts)
  next
    case False
    with 1 have "list_all is_digit (digits (n div 10))"
      by simp
    moreover from False have "digits n = digits (n div 10) @ [digit_char (n mod 10)]"
      by (rule digits_large)
    ultimately show ?thesis
      by (simp add: digit_char_facts)
  qed
qed

lemma digits_not_Nil: "digits n \<noteq> []"
  by (cases "n < 10") (simp_all add: digits_small digits_large)

lemma is_digit_not_minus: "is_digit c \<Longrightarrow> c \<noteq> CHR ''-''"
  by (auto simp: is_digit_def)

lemma is_digit_0: "is_digit CHR ''0''"
  by (simp add: is_digit_def)

lemma hd_digits: "is_digit (hd (digits n))"
  using digits_all_digits [of n] digits_not_Nil [of n] by (cases "digits n") simp_all

lemma String_of_int_inj: "String_of_int i = String_of_int j \<Longrightarrow> i = j"
proof -
  assume eq: "String_of_int i = String_of_int j"
  have neg: False if "x < 0" "0 \<le> y" "String_of_int x = String_of_int y" for x y
  proof -
    from that have "CHR ''-'' # digits (nat (- x)) = digits (nat y)"
      by (simp add: String_of_int_def)
    then have "hd (CHR ''-'' # digits (nat (- x))) = hd (digits (nat y))"
      by (rule arg_cong)
    then have "CHR ''-'' = hd (digits (nat y))"
      by simp
    with hd_digits [of "nat y"] show False
      by (auto dest: is_digit_not_minus)
  qed
  consider "i < 0" "j < 0" | "i < 0" "0 \<le> j" | "0 \<le> i" "j < 0" | "0 \<le> i" "0 \<le> j"
    by linarith
  then show ?thesis
  proof cases
    case 1
    with eq have "nat (- i) = nat (- j)"
      by (simp add: String_of_int_def digits_inj)
    with 1 show ?thesis by simp
  next
    case 2
    with neg eq show ?thesis by blast
  next
    case 3
    with neg [of j i] eq show ?thesis by simp
  next
    case 4
    with eq have "nat i = nat j"
      by (simp add: String_of_int_def digits_inj)
    with 4 show ?thesis by simp
  qed
qed

lemma pad2:
  assumes "0 \<le> n" "n < 100"
  shows "padStart 2 CHR ''0'' (String_of_int n)
     = [digit_char (nat n div 10), digit_char (nat n mod 10)]"
proof (cases "n < 10")
  case True
  with assms show ?thesis
    by (simp add: String_of_int_def padStart_def digit_char_0 digits_small)
next
  case False
  with assms have n: "\<not> nat n < 10" "nat n div 10 < 10"
    by simp_all
  have "digits (nat n) = digits (nat n div 10) @ [digit_char (nat n mod 10)]"
    using n(1) by (rule digits_large)
  also have "digits (nat n div 10) = [digit_char (nat n div 10)]"
    using n(2) by (rule digits_small)
  finally have "digits (nat n) = [digit_char (nat n div 10), digit_char (nat n mod 10)]"
    by simp
  with assms show ?thesis
    by (simp add: String_of_int_def padStart_def)
qed

lemma two_digits_inj:
  fixes n m :: nat
  assumes "n < 100" "m < 100"
    and "digit_char (n div 10) = digit_char (m div 10)"
    and "digit_char (n mod 10) = digit_char (m mod 10)"
  shows "n = m"
proof -
  have "digit_value (digit_char (n div 10)) = digit_value (digit_char (m div 10))"
    "digit_value (digit_char (n mod 10)) = digit_value (digit_char (m mod 10))"
    using assms(3,4) by simp_all
  moreover have "n div 10 < 10" "m div 10 < 10" "n mod 10 < 10" "m mod 10 < 10"
    using assms(1,2) by simp_all
  ultimately have "n div 10 = m div 10" "n mod 10 = m mod 10"
    by (simp_all add: digit_char_facts(1))
  then show ?thesis
    by (metis div_mult_mod_eq)
qed

lemma length_digits_gt: "10 ^ k \<le> n \<Longrightarrow> k < length (digits n)"
proof (induction k arbitrary: n)
  case 0
  then show ?case
    using digits_not_Nil [of n] by simp
next
  case (Suc k)
  from Suc.prems have p: "10 * 10 ^ k \<le> n"
    by simp
  have "(10::nat) * 1 \<le> 10 * 10 ^ k"
    by (rule mult_le_mono2) simp
  with p have "\<not> n < 10"
    by linarith
  moreover from p have "10 ^ k \<le> n div 10"
    by (simp add: less_eq_div_iff_mult_less_eq mult.commute)
  ultimately have "\<not> n < 10" "10 ^ k \<le> n div 10" .
  with Suc.IH [of "n div 10"] show ?case
    by (simp add: digits_large)
qed

lemma length_digits_le: "n < 10 ^ k \<Longrightarrow> 0 < k \<Longrightarrow> length (digits n) \<le> k"
proof (induction k arbitrary: n)
  case 0
  then show ?case by simp
next
  case (Suc k)
  show ?case
  proof (cases "n < 10")
    case True
    then show ?thesis
      by (simp add: digits_small)
  next
    case False
    with Suc.prems have "n div 10 < 10 ^ k"
      by (simp add: less_mult_imp_div_less mult.commute)
    moreover from this False have "0 < k"
      by (cases k) simp_all
    ultimately have "length (digits (n div 10)) \<le> k"
      by (rule Suc.IH)
    with False show ?thesis
      by (simp add: digits_large)
  qed
qed

lemma length_digits_4: "length (digits n) = 4 \<longleftrightarrow> 1000 \<le> n \<and> n < 10000"
proof
  assume l: "length (digits n) = 4"
  have "1000 \<le> n"
  proof (rule ccontr)
    assume "\<not> 1000 \<le> n"
    then have "n < 10 ^ 3" by simp
    then have "length (digits n) \<le> 3" by (rule length_digits_le) simp
    with l show False by simp
  qed
  moreover have "n < 10000"
  proof (rule ccontr)
    assume "\<not> n < 10000"
    then have "10 ^ 4 \<le> n" by simp
    then have "4 < length (digits n)" by (rule length_digits_gt)
    with l show False by simp
  qed
  ultimately show "1000 \<le> n \<and> n < 10000" ..
next
  assume "1000 \<le> n \<and> n < 10000"
  then have "10 ^ 3 \<le> n" "n < 10 ^ 4" by simp_all
  then have "3 < length (digits n)" "length (digits n) \<le> 4"
    by (simp_all add: length_digits_gt length_digits_le del: power_numeral)
  then show "length (digits n) = 4" by simp
qed

lemma append_same_length:
  "x @ u = y @ v \<Longrightarrow> length u = length v \<Longrightarrow> x = y \<and> u = v"
  by simp

subsection \<open>The day key\<close>

lemma dateKey_depends_on_Day: "Day t = Day t' \<Longrightarrow> dateKey t = dateKey t'"
  using getters_depend_on_Day [of t t']
  by (simp add: dateKey_def getFullYear_def getMonth_def getDate_def)

lemma dateKey_fields:
  "dateKey d = String_of_int (getFullYear d) @ ''-'' @
     [digit_char (nat (getMonth d + 1) div 10), digit_char (nat (getMonth d + 1) mod 10)] @ ''-'' @
     [digit_char (nat (getDate d) div 10), digit_char (nat (getDate d) mod 10)]"
proof -
  have "0 \<le> getMonth d + 1" "getMonth d + 1 < 100" "0 \<le> getDate d" "getDate d < 100"
    using MonthFromTime_range [of d] DateFromTime_range [of d]
    by (simp_all add: getMonth_def getDate_def)
  then show ?thesis
    by (simp add: dateKey_def Let_def pad2)
qed

lemma dateKey_inj:
  assumes "dateKey t = dateKey t'"
  shows "Day t = Day t'"
proof -
  let ?m = "\<lambda>d. nat (getMonth d + 1)" and ?d = "\<lambda>d. nat (getDate d)"
  have rng: "?m t < 100" "?m t' < 100" "?d t < 100" "?d t' < 100"
    "0 \<le> getMonth t" "0 \<le> getMonth t'" "0 \<le> getDate t" "0 \<le> getDate t'"
    using MonthFromTime_range [of t] DateFromTime_range [of t]
      MonthFromTime_range [of t'] DateFromTime_range [of t']
    by (simp_all add: getMonth_def getDate_def)
  from assms have "String_of_int (getFullYear t) @
      (''-'' @ [digit_char (?m t div 10), digit_char (?m t mod 10)] @ ''-'' @
        [digit_char (?d t div 10), digit_char (?d t mod 10)])
    = String_of_int (getFullYear t') @
      (''-'' @ [digit_char (?m t' div 10), digit_char (?m t' mod 10)] @ ''-'' @
        [digit_char (?d t' div 10), digit_char (?d t' mod 10)])"
    by (simp only: dateKey_fields)
  then have "String_of_int (getFullYear t) = String_of_int (getFullYear t') \<and>
      ''-'' @ [digit_char (?m t div 10), digit_char (?m t mod 10)] @ ''-'' @
        [digit_char (?d t div 10), digit_char (?d t mod 10)]
    = ''-'' @ [digit_char (?m t' div 10), digit_char (?m t' mod 10)] @ ''-'' @
        [digit_char (?d t' div 10), digit_char (?d t' mod 10)]"
    by (rule append_same_length) simp
  then have ys: "String_of_int (getFullYear t) = String_of_int (getFullYear t')"
    and m: "digit_char (?m t div 10) = digit_char (?m t' div 10)"
      "digit_char (?m t mod 10) = digit_char (?m t' mod 10)"
    and d: "digit_char (?d t div 10) = digit_char (?d t' div 10)"
      "digit_char (?d t mod 10) = digit_char (?d t' mod 10)"
    by simp_all
  from ys have y: "getFullYear t = getFullYear t'"
    by (rule String_of_int_inj)
  have "?m t = ?m t'"
    using rng(1,2) m by (rule two_digits_inj)
  with rng(5,6) have 1: "MonthFromTime t = MonthFromTime t'"
    by (simp add: getMonth_def)
  have "?d t = ?d t'"
    using rng(3,4) d by (rule two_digits_inj)
  with rng(7,8) have 2: "DateFromTime t = DateFromTime t'"
    by (simp add: getDate_def)
  from y have 3: "YearFromTime t = YearFromTime t'"
    by (simp add: getFullYear_def)
  from 3 1 2 show ?thesis
    by (rule fields_determine_Day)
qed

lemma is_YYYY_MM_DD_D: "is_YYYY_MM_DD s \<Longrightarrow> length s = 10 \<and> is_digit (hd s)"
  by (induction s rule: is_YYYY_MM_DD.induct) simp_all

lemma is_YYYY_MM_DD_key:
  assumes "is_digit m1" "is_digit m2" "is_digit d1" "is_digit d2"
  shows "is_YYYY_MM_DD (ys @ ''-'' @ [m1, m2] @ ''-'' @ [d1, d2])
    \<longleftrightarrow> length ys = 4 \<and> list_all is_digit ys"
proof (cases "length ys = 4")
  case True
  then obtain a b c d where "ys = [a, b, c, d]"
    by (auto simp: length_Suc_conv numeral_eq_Suc)
  with assms show ?thesis
    by simp
next
  case False
  then have "length (ys @ ''-'' @ [m1, m2] @ ''-'' @ [d1, d2]) \<noteq> 10"
    by simp
  with is_YYYY_MM_DD_D False show ?thesis
    by blast
qed

lemma dateKey_shape:
  "is_YYYY_MM_DD (dateKey d) \<longleftrightarrow> 1000 \<le> getFullYear d \<and> getFullYear d \<le> 9999"
proof -
  let ?y = "getFullYear d"
  have dg: "is_digit (digit_char (nat (getMonth d + 1) div 10))"
    "is_digit (digit_char (nat (getMonth d + 1) mod 10))"
    "is_digit (digit_char (nat (getDate d) div 10))"
    "is_digit (digit_char (nat (getDate d) mod 10))"
    using MonthFromTime_range [of d] DateFromTime_range [of d]
    by (simp_all add: getMonth_def getDate_def digit_char_facts(2))
  have key: "is_YYYY_MM_DD (dateKey d)
      \<longleftrightarrow> length (String_of_int ?y) = 4 \<and> list_all is_digit (String_of_int ?y)"
    by (simp only: dateKey_fields is_YYYY_MM_DD_key [OF dg])
  show ?thesis
  proof (cases "?y < 0")
    case True
    then have "\<not> list_all is_digit (String_of_int ?y)"
      by (auto simp: String_of_int_def dest: is_digit_not_minus)
    with True key show ?thesis
      by simp
  next
    case False
    then have "String_of_int ?y = digits (nat ?y)"
      by (simp add: String_of_int_def)
    with False key show ?thesis
      by (simp add: digits_all_digits length_digits_4) linarith
  qed
qed

subsection \<open>Fixed notation and the rows of the export\<close>

lemma padStart_digits:
  "list_all is_digit s \<Longrightarrow> list_all is_digit (padStart n CHR ''0'' s)"
  by (auto simp: padStart_def list_all_iff is_digit_0)

lemma length_padStart: "n \<le> length (padStart n c s)"
  by (simp add: padStart_def)

lemma two_decimals_cut:
  assumes "list_all is_digit z" "3 \<le> length z"
  shows "two_decimals (take (length z - 2) z @ ''.'' @ drop (length z - 2) z)"
    and "two_decimals (''-'' @ take (length z - 2) z @ ''.'' @ drop (length z - 2) z)"
proof -
  define u v where "u = take (length z - 2) z" and "v = drop (length z - 2) z"
  have z: "z = u @ v"
    by (simp add: u_def v_def)
  have "length v = 2"
    using assms(2) by (simp add: v_def)
  then obtain p q where v: "v = [p, q]"
    by (auto simp: length_Suc_conv numeral_2_eq_2)
  have "length u = length z - 2"
    using assms(2) by (simp add: u_def)
  with assms(2) obtain c r where u: "u = c # r"
    by (cases u) auto
  have d: "list_all is_digit u" "is_digit p" "is_digit q" "is_digit c"
    using assms(1) by (simp_all add: z v u)
  then have m: "c \<noteq> CHR ''-''"
    by (simp add: is_digit_not_minus)
  have "two_decimals (u @ ''.'' @ v)"
    using d m by (simp add: two_decimals_def v u Let_def nth_append)
  moreover have "two_decimals (''-'' @ u @ ''.'' @ v)"
    using d by (simp add: two_decimals_def v u Let_def nth_append)
  ultimately show "two_decimals (take (length z - 2) z @ ''.'' @ drop (length z - 2) z)"
    and "two_decimals (''-'' @ take (length z - 2) z @ ''.'' @ drop (length z - 2) z)"
    by (simp_all only: u_def v_def)
qed

lemma toFixed_below:
  assumes "\<bar>x\<bar> < 10 ^ 21"
  shows "two_decimals (Number_toFixed (Num x) 2)"
proof -
  define z where "z = padStart (2 + 1) CHR ''0'' (digits (nat \<lfloor>\<bar>x\<bar> * 10 ^ 2 + 1 / 2\<rfloor>))"
  have eq: "Number_toFixed (Num x) 2
      = (if x < 0 then ''-'' else []) @ (take (length z - 2) z @ ''.'' @ drop (length z - 2) z)"
    using assms unfolding Number_toFixed_def Let_def z_def by simp
  have zs: "list_all is_digit z" "3 \<le> length z"
    using length_padStart [of "2 + 1" "CHR ''0''"]
    by (simp_all add: z_def padStart_digits digits_all_digits)
  show ?thesis
  proof (cases "x < 0")
    case True
    with two_decimals_cut(2) [OF zs] show ?thesis
      by (simp only: eq if_True)
  next
    case False
    with two_decimals_cut(1) [OF zs] show ?thesis
      by (simp only: eq if_False append_Nil)
  qed
qed

lemma toFixed_NaN: "Number_toFixed NaN f = ''NaN''"
  by (simp add: Number_toFixed_def)

text \<open>Exponent notation never has the shape of two decimals.\<close>

lemma is_digit_not_point: "is_digit c \<Longrightarrow> c \<noteq> CHR ''.''"
  by (auto simp: is_digit_def)

lemma hd_digits_nonzero: "0 < n \<Longrightarrow> hd (digits n) \<noteq> CHR ''0''"
proof (induction n rule: digits.induct)
  case (1 n)
  show ?case
  proof (cases "n < 10")
    case True
    from True "1.prems" show ?thesis
      by (cases n rule: digit_cases) (simp_all add: digits_small digit_char_def)
  next
    case False
    with 1 have "hd (digits (n div 10)) \<noteq> CHR ''0''"
      by simp
    with False show ?thesis
      by (simp add: digits_large digits_not_Nil)
  qed
qed

lemma strip_zeros_digits:
  assumes "0 < n"
  shows "strip_zeros (digits n) \<noteq> []" "list_all is_digit (strip_zeros (digits n))"
proof -
  have "hd (digits n) \<in> set (rev (digits n))"
    using digits_not_Nil [of n] by simp
  with hd_digits_nonzero [OF assms] show "strip_zeros (digits n) \<noteq> []"
    by (auto simp: strip_zeros_def dropWhile_eq_Nil_conv)
  have "set (strip_zeros (digits n)) \<subseteq> set (digits n)"
    using set_dropWhileD [of _ "\<lambda>c. c = CHR ''0''" "rev (digits n)"]
    by (auto simp: strip_zeros_def)
  with digits_all_digits [of n] show "list_all is_digit (strip_zeros (digits n))"
    by (auto simp: list_all_iff)
qed

lemma exponent_tail:
  assumes "list_all is_digit E" "E \<noteq> []"
  shows "(M @ ''e+'' @ E) ! (length (M @ ''e+'' @ E) - 3) \<noteq> CHR ''.''"
proof -
  have i: "(M @ ''e+'' @ E) ! (length (M @ ''e+'' @ E) - 3) = (''e+'' @ E) ! (length E - 1)"
    using assms(2) by (cases E) (simp_all add: nth_append)
  have "0 < length E"
    using assms(2) by simp
  then have "length E = 1 \<or> length E = 2 \<or> 3 \<le> length E"
    by linarith
  then consider a where "E = [a]" | a b where "E = [a, b]" | "3 \<le> length E"
    by (auto simp: length_Suc_conv numeral_2_eq_2)
  then show ?thesis
  proof cases
    case 1
    with i show ?thesis by simp
  next
    case 2
    with i show ?thesis by simp
  next
    case 3
    then have "(''e+'' @ E) ! (length E - 1) = E ! (length E - 3)"
      by (simp add: nth_Cons' numeral_3_eq_3)
    moreover from 3 have "E ! (length E - 3) \<in> set E"
      by (intro nth_mem) simp
    ultimately show ?thesis
      using assms(1) i by (auto simp: list_all_iff dest: is_digit_not_point)
  qed
qed

lemma exponent_not_two_decimals:
  assumes "M \<noteq> []" "is_digit (hd M)" "list_all is_digit E" "E \<noteq> []"
  shows "\<not> two_decimals (M @ ''e+'' @ E)" "\<not> two_decimals (''-'' @ M @ ''e+'' @ E)"
proof -
  from assms(1,2) obtain c r where M: "M = c # r" "c \<noteq> CHR ''-''"
    by (cases M) (auto dest: is_digit_not_minus)
  note t = exponent_tail [OF assms(3,4), of M]
  show "\<not> two_decimals (M @ ''e+'' @ E)"
    using t by (simp add: two_decimals_def Let_def M)
  show "\<not> two_decimals (''-'' @ M @ ''e+'' @ E)"
    using t by (simp add: two_decimals_def Let_def M)
qed

lemma exponent_notation_shape:
  assumes "0 < N"
  obtains M where "exponent_notation N = M @ ''e+'' @ digits (length (digits N) - 1)"
    "M \<noteq> []" "is_digit (hd M)"
proof -
  let ?s = "strip_zeros (digits N)"
  note s = strip_zeros_digits [OF assms]
  from s obtain c r where c: "?s = c # r" "is_digit c"
    by (cases ?s) auto
  define M where "M = (if length ?s = 1 then ?s else [hd ?s] @ ''.'' @ tl ?s)"
  have "exponent_notation N = M @ ''e+'' @ digits (length (digits N) - 1)"
    by (simp add: exponent_notation_def Let_def M_def)
  moreover have "M \<noteq> []" "is_digit (hd M)"
    using c by (simp_all add: M_def)
  ultimately show ?thesis
    by (rule that)
qed

lemma toFixed_from_1e21:
  assumes "10 ^ 21 \<le> \<bar>x\<bar>"
  shows "\<not> two_decimals (Number_toFixed (Num x) 2)"
proof -
  let ?N = "nat \<lfloor>\<bar>x\<bar>\<rfloor>"
  have "(1::real) \<le> \<bar>x\<bar>"
    using assms by (rule order_trans [rotated]) simp
  then have "0 < ?N"
    by (simp add: zero_less_nat_eq)
  then obtain M where M: "exponent_notation ?N = M @ ''e+'' @ digits (length (digits ?N) - 1)"
    "M \<noteq> []" "is_digit (hd M)"
    by (rule exponent_notation_shape)
  have eq: "Number_toFixed (Num x) 2
      = (if x < 0 then ''-'' else []) @ M @ ''e+'' @ digits (length (digits ?N) - 1)"
    using assms by (simp add: Number_toFixed_def Let_def M(1))
  note n = exponent_not_two_decimals [where E = "digits (length (digits ?N) - 1)",
      OF M(2,3) digits_all_digits digits_not_Nil]
  show ?thesis
  proof (cases "x < 0")
    case True
    with n(2) show ?thesis
      by (simp only: eq if_True not_False_eq_True)
  next
    case False
    with n(1) show ?thesis
      by (simp only: eq if_False append_Nil not_False_eq_True)
  qed
qed

lemma toFixed_two_decimals_iff:
  "two_decimals (Number_toFixed v 2) \<longleftrightarrow> (\<exists>x. v = Num x \<and> \<bar>x\<bar> < 10 ^ 21)"
proof (cases v)
  case NaN
  then show ?thesis
    by (simp add: toFixed_NaN two_decimals_def)
next
  case (Num x)
  then show ?thesis
    using toFixed_below [of x] toFixed_from_1e21 [of x] by (cases "\<bar>x\<bar> < 10 ^ 21") auto
qed

lemma sortedEntries_mset: "mset (sortedEntries bk) = mset (concat (Object_values bk))"
  by (simp add: sortedEntries_def)

lemma sortedEntries_desc:
  "sorted_wrt (\<lambda>a b. timestamp b \<le> timestamp a) (sortedEntries bk)"
proof -
  have "sorted (map (\<lambda>e. - timestamp e) (sortedEntries bk))"
    by (simp add: sortedEntries_def)
  then show ?thesis
    by (simp add: sorted_map)
qed

lemma replace_commas_no_comma: "CHR '','' \<notin> set (replace_commas s)"
  by (auto simp: replace_commas_def)

subsection \<open>The week as a list\<close>

lemma last7Totals_unfold:
  "last7Totals clock bk =
     map (\<lambda>i. \<lparr>date = (Day (clock i) - i) * msPerDay,
               total_d = sum_amounts (bucket bk (dateKey ((Day (clock i) - i) * msPerDay)))\<rparr>)
       [6, 5, 4, 3, 2, 1, 0]"
  by (simp add: last7Totals_def days_back days_back_0 reduce_amounts_sum Let_def)

subsection \<open>Values at the dates of the examples\<close>

text \<open>
  The examples are set around the turn of the year 2024: the epoch days 19718 to 19724
  are 27 December 2023 to 2 January 2024.
\<close>

lemmas dateKey_eval =
  dateKey_def getFullYear_def getMonth_def getDate_def MonthFromTime_def DateFromTime_def
  DayWithinYear_def InLeapYear_def Day_def msPerDay_def DayFromYear_def DaysInYear_def
  String_of_int_def padStart_def digits.simps digit_char_def Let_def

lemma year_2024:
  "19723 \<le> Day t \<Longrightarrow> Day t < 20089 \<Longrightarrow> YearFromTime t = 2024"
  by (rule YearFromTime_unique) (simp_all add: DayFromYear_def)

lemma year_2023:
  "19358 \<le> Day t \<Longrightarrow> Day t < 19723 \<Longrightarrow> YearFromTime t = 2023"
  by (rule YearFromTime_unique) (simp_all add: DayFromYear_def)

lemma years:
  "YearFromTime 1703635200000 = 2023" "YearFromTime 1703721600000 = 2023"
  "YearFromTime 1703808000000 = 2023" "YearFromTime 1703894400000 = 2023"
  "YearFromTime 1703980800000 = 2023" "YearFromTime 1704067200000 = 2024"
  "YearFromTime 1704153600000 = 2024" "YearFromTime 1704100000000 = 2024"
  "YearFromTime 1704200000000 = 2024" "YearFromTime 1703900000000 = 2023"
  by (simp_all add: year_2023 year_2024 Day_def msPerDay_def)

lemma year_999: "YearFromTime (- 30641760000000) = 999"
  by (rule YearFromTime_unique) (simp_all add: DayFromYear_def Day_def msPerDay_def)

lemma year_10000: "YearFromTime 253402300800000 = 10000"
  by (rule YearFromTime_unique) (simp_all add: DayFromYear_def Day_def msPerDay_def)

lemma week_keys:
  "map dateKey
       [1703635200000, 1703721600000, 1703808000000, 1703894400000, 1703980800000,
        1704067200000, 1704153600000]
     = [''2023-12-27'', ''2023-12-28'', ''2023-12-29'', ''2023-12-30'', ''2023-12-31'',
        ''2024-01-01'', ''2024-01-02'']"
  by (simp add: dateKey_eval years)

lemma key_1704190000000: "dateKey 1704190000000 = ''2024-01-02''"
  by (simp add: dateKey_eval year_2024)

lemma key_1704100000000: "dateKey 1704100000000 = ''2024-01-01''"
  by (simp add: dateKey_eval years)

lemma toFixed_examples:
  "Number_toFixed (Num 10) 2 = ''10.00''" "Number_toFixed (Num (9 / 2)) 2 = ''4.50''"
  "Number_toFixed (Num 1000000000000000000000) 2 = ''1e+21''"
  by (simp_all add: Number_toFixed_def exponent_notation_def strip_zeros_def padStart_def
      digits.simps digit_char_def Let_def)

lemma todayKey_restored: "todayKey restored_state = ''2024-01-02''"
  by (simp add: restored_state_def initial_state_def dateKey_eval years)

lemma book_restored: "book restored_state = [(''2024-01-01'', [coffee])]"
  by (simp add: restored_state_def)

lemma selected_restored: "selectedCategory restored_state = ''food''"
  by (simp add: restored_state_def initial_state_def)

lemma book_ensured:
  "book (ensureToday restored_state) = [(''2024-01-01'', [coffee]), (''2024-01-02'', [])]"
  by (simp add: ensureToday_def todayKey_restored book_restored)

lemma todayKey_coffee: "todayKey coffee_state = ''2024-01-01''"
  by (simp add: coffee_state_def initial_state_def dateKey_eval years)

lemma book_coffee: "book coffee_state = [(''2024-01-01'', [coffee])]"
  by (simp add: coffee_state_def)

lemma selected_coffee: "selectedCategory coffee_state = ''food''"
  by (simp add: coffee_state_def initial_state_def)

lemma today_coffee: "todayEntries coffee_state = [coffee]"
  by (simp add: todayEntries_def bucket_def todayKey_coffee book_coffee)

section \<open>The claims\<close>

subsection \<open>The running average\<close>

text \<open>
  C1. \<^verbatim>\<open>averageDaily\<close> is the sum of the amounts of all entries of all buckets, divided
  by the number of keys of the ledger, or by 1 when it has none; where no amount is
  \<^verbatim>\<open>NaN\<close> this is the quotient of the reals. The keys are counted in the list of the
  properties, which for an object, whose keys are distinct, is the number of keys that
  have a bucket. A key counts whether its bucket is empty or not: a ledger with 10
  under 2024-01-01 and an empty bucket under 2024-01-02 has the average 5.
\<close>

theorem averageDaily_formula:
  "averageDaily (spendingSummary tz now bk)
     = js_div (sum_amounts (concat (Object_values bk)))
         (Num (real (max 1 (length (Object_keys bk))))) \<and>
   (NaN \<notin> amount ` set (concat (Object_values bk)) \<longrightarrow>
      averageDaily (spendingSummary tz now bk)
        = Some (Num ((\<Sum>e\<leftarrow>concat (Object_values bk). real_of (amount e))
                     / real (max 1 (length (Object_keys bk)))))) \<and>
   (distinct (Object_keys bk) \<longrightarrow> length (Object_keys bk) = card (dom (map_of bk))) \<and>
   averageDaily (spendingSummary tz now [(''2024-01-01'', [coffee]), (''2024-01-02'', [])])
     = Some (Num 5)"
proof (intro conjI impI)
  show "averageDaily (spendingSummary tz now bk)
     = js_div (sum_amounts (concat (Object_values bk)))
         (Num (real (max 1 (length (Object_keys bk)))))"
    by (rule averageDaily_eq)
next
  assume "NaN \<notin> amount ` set (concat (Object_values bk))"
  then show "averageDaily (spendingSummary tz now bk)
        = Some (Num ((\<Sum>e\<leftarrow>concat (Object_values bk). real_of (amount e))
                     / real (max 1 (length (Object_keys bk)))))"
    by (simp add: averageDaily_eq sum_amounts_real)
next
  assume "distinct (Object_keys bk)"
  then show "length (Object_keys bk) = card (dom (map_of bk))"
    by (simp add: Object_keys_def dom_map_of_conv_image_fst distinct_card flip: set_map)
next
  show "averageDaily (spendingSummary tz now [(''2024-01-01'', [coffee]), (''2024-01-02'', [])])
     = Some (Num 5)"
    by (simp add: averageDaily_eq Object_values_def Object_keys_def coffee_def)
qed

theorem averageDaily_formula_witness:
  "NaN \<notin> amount ` set (concat (Object_values (book (ensureToday restored_state)))) \<and>
   distinct (Object_keys (book (ensureToday restored_state))) \<and>
   card (dom (map_of (book (ensureToday restored_state)))) = 2 \<and>
   averageDaily (spendingSummary (\<lambda>ms. ms) 1704200000000 (book (ensureToday restored_state)))
     = Some (Num 5) \<and>
   averageDaily (spendingSummary (\<lambda>ms. ms) 1704200000000 (book restored_state))
     = Some (Num 10)"
proof -
  let ?bk = "book (ensureToday restored_state)"
  have a: "NaN \<notin> amount ` set (concat (Object_values ?bk))"
    by (simp add: book_ensured Object_values_def coffee_def)
  have d: "distinct (Object_keys ?bk)"
    by (simp add: book_ensured Object_keys_def)
  have l: "length (Object_keys ?bk) = 2"
    by (simp add: book_ensured Object_keys_def)
  have b: "NaN \<notin> amount ` set (concat (Object_values (book restored_state)))"
    by (simp add: restored_state_def Object_values_def coffee_def)
  note t = averageDaily_formula [of "\<lambda>ms. ms" 1704200000000 ?bk]
  note u = averageDaily_formula [of "\<lambda>ms. ms" 1704200000000 "book restored_state"]
  have 1: "card (dom (map_of ?bk)) = 2"
    using t d l by simp
  have 2: "averageDaily (spendingSummary (\<lambda>ms. ms) 1704200000000 ?bk) = Some (Num 5)"
    using t a by (simp add: book_ensured Object_values_def Object_keys_def coffee_def)
  have 3: "averageDaily (spendingSummary (\<lambda>ms. ms) 1704200000000 (book restored_state))
     = Some (Num 10)"
    using u b by (simp add: restored_state_def Object_values_def Object_keys_def coffee_def)
  from a d 1 2 3 show ?thesis
    by blast
qed

subsection \<open>Deleting an entry that is not there\<close>

text \<open>
  C2, as stated, fails where the current day has no bucket: \<^verbatim>\<open>deleteExpense\<close> writes
  \<^verbatim>\<open>[todayKey]: filtered\<close> whatever it finds, so the ledger gains the key of the day with
  an empty bucket. In the ledger restored on 2 January 2024 the call adds the key
  \<^verbatim>\<open>2024-01-02\<close>, and the running average falls from 10 to 5.
\<close>

theorem deleteExpense_absent_bucket_counterexample:
  "map_of (book restored_state) (todayKey restored_state) = None \<and>
   ''zz'' \<notin> id_e ` set (todayEntries restored_state) \<and>
   book (deleteExpense ''zz'' restored_state) = [(''2024-01-01'', [coffee]), (''2024-01-02'', [])] \<and>
   book (deleteExpense ''zz'' restored_state) \<noteq> book restored_state \<and>
   averageDaily (spendingSummary (\<lambda>ms. ms) 1704200000000 (book restored_state)) = Some (Num 10) \<and>
   averageDaily (spendingSummary (\<lambda>ms. ms) 1704200000000
       (book (deleteExpense ''zz'' restored_state))) = Some (Num 5)"
  by (simp add: deleteExpense_def todayEntries_def bucket_def todayKey_restored book_restored
      averageDaily_eq Object_values_def Object_keys_def coffee_def)

text \<open>
  C2, amended. Deleting an id that today's bucket does not hold does what the effect
  \<^verbatim>\<open>ensureToday\<close> does: where the day has a bucket the state is what it was; where it has
  none, the ledger gains an empty bucket under the key of the day, and nothing else
  changes. Today's entries are the same either way, and a second call changes nothing.
\<close>

theorem deleteExpense_absent_id:
  assumes "expenseId \<notin> id_e ` set (todayEntries s)"
  shows "deleteExpense expenseId s = ensureToday s \<and>
         (map_of (book s) (todayKey s) \<noteq> None \<longrightarrow> deleteExpense expenseId s = s) \<and>
         (map_of (book s) (todayKey s) = None \<longrightarrow>
            deleteExpense expenseId s = s\<lparr>book := book s @ [(todayKey s, [])]\<rparr>) \<and>
         todayEntries (deleteExpense expenseId s) = todayEntries s \<and>
         deleteExpense expenseId (deleteExpense expenseId s) = deleteExpense expenseId s"
proof -
  let ?arr = "bucket (book s) (todayKey s)"
  have keep: "filter (\<lambda>expense. id_e expense \<noteq> expenseId) ?arr = ?arr"
    using assms by (simp add: todayEntries_def filter_absent_id)
  have del: "deleteExpense expenseId s = s\<lparr>book := spread_with (book s) (todayKey s) ?arr\<rparr>"
    by (simp add: deleteExpense_def Let_def keep)
  have present: "deleteExpense expenseId s = s" if "map_of (book s) (todayKey s) \<noteq> None"
  proof -
    from that obtain arr where arr: "map_of (book s) (todayKey s) = Some arr"
      by auto
    then have "spread_with (book s) (todayKey s) ?arr = book s"
      by (simp add: bucket_def spread_with_same)
    then show ?thesis
      by (simp add: del)
  qed
  have absent: "deleteExpense expenseId s = s\<lparr>book := book s @ [(todayKey s, [])]\<rparr>"
    if "map_of (book s) (todayKey s) = None"
    using that by (simp add: del bucket_def spread_with_absent)
  have ensure: "deleteExpense expenseId s = ensureToday s"
  proof (cases "map_of (book s) (todayKey s)")
    case None
    then show ?thesis
      by (simp add: absent ensureToday_def spread_with_absent)
  next
    case (Some arr)
    then show ?thesis
      by (simp add: present ensureToday_def)
  qed
  have today: "todayEntries (deleteExpense expenseId s) = todayEntries s"
    by (simp add: del todayEntries_def bucket_spread_with)
  have twice: "deleteExpense expenseId (deleteExpense expenseId s) = deleteExpense expenseId s"
    by (simp add: deleteExpense_def Let_def bucket_spread_with spread_with_twice)
  from ensure present absent today twice show ?thesis
    by blast
qed

theorem deleteExpense_absent_id_witness:
  "''zz'' \<notin> id_e ` set (todayEntries restored_state) \<and>
   deleteExpense ''zz'' restored_state = ensureToday restored_state \<and>
   book (ensureToday restored_state) = [(''2024-01-01'', [coffee]), (''2024-01-02'', [])] \<and>
   ''zz'' \<notin> id_e ` set (todayEntries (ensureToday restored_state)) \<and>
   deleteExpense ''zz'' (ensureToday restored_state) = ensureToday restored_state"
proof -
  have a: "''zz'' \<notin> id_e ` set (todayEntries restored_state)"
    by (simp add: todayEntries_def bucket_def todayKey_restored book_restored)
  have e: "ensureToday restored_state
      = restored_state\<lparr>book := [(''2024-01-01'', [coffee]), (''2024-01-02'', [])]\<rparr>"
    by (simp add: ensureToday_def todayKey_restored book_restored)
  have b: "''zz'' \<notin> id_e ` set (todayEntries (ensureToday restored_state))"
    by (simp add: e todayEntries_def bucket_def todayKey_restored)
  have p: "map_of (book (ensureToday restored_state)) (todayKey (ensureToday restored_state)) \<noteq> None"
    by (simp add: e todayKey_restored)
  have c: "book (ensureToday restored_state) = [(''2024-01-01'', [coffee]), (''2024-01-02'', [])]"
    by (simp add: e)
  have 1: "deleteExpense ''zz'' restored_state = ensureToday restored_state"
    using deleteExpense_absent_id [OF a] by blast
  have 2: "deleteExpense ''zz'' (ensureToday restored_state) = ensureToday restored_state"
    using deleteExpense_absent_id [OF b] p by blast
  from a 1 c b 2 show ?thesis
    by blast
qed

subsection \<open>Adding and deleting\<close>

text \<open>
  What the two calls do to the entries of the day, whatever the id: the first appends
  the new entry, the second removes every entry that carries the id.
\<close>

lemma todayEntries_addAmount:
  assumes "js_gt amt (Num 0)"
  shows "todayEntries (addAmount rnd now_ms amt cat nt s)
     = todayEntries s @
       [\<lparr>id_e = rnd, amount = amt, timestamp = now_ms,
         category = (case cat of None \<Rightarrow> selectedCategory s | Some c \<Rightarrow> c),
         note_e = (case nt of None \<Rightarrow> [] | Some n \<Rightarrow> n)\<rparr>]"
  using assms by (simp add: addAmount_def todayEntries_def Let_def bucket_spread_with)

lemma book_add_then_delete:
  assumes "js_gt amt (Num 0)"
  shows "book (deleteExpense rnd (addAmount rnd now_ms amt cat nt s))
     = spread_with (book s) (todayKey s)
         (filter (\<lambda>expense. id_e expense \<noteq> rnd) (bucket (book s) (todayKey s)))"
  using assms
  by (simp add: deleteExpense_def addAmount_def Let_def bucket_spread_with spread_with_twice)

lemma todayEntries_add_then_delete:
  assumes "js_gt amt (Num 0)"
  shows "todayEntries (deleteExpense rnd (addAmount rnd now_ms amt cat nt s))
     = filter (\<lambda>expense. id_e expense \<noteq> rnd) (todayEntries s)"
proof -
  have key: "todayKey (deleteExpense rnd (addAmount rnd now_ms amt cat nt s)) = todayKey s"
    by (simp add: deleteExpense_def addAmount_def Let_def)
  show ?thesis
    by (simp add: todayEntries_def book_add_then_delete [OF assms] key bucket_spread_with)
qed

lemma filter_id_unchanged_iff:
  "filter (\<lambda>expense. id_e expense \<noteq> expenseId) arr = arr \<longleftrightarrow> expenseId \<notin> id_e ` set arr"
  by (auto simp: filter_id_conv)

text \<open>
  C3, as stated, fails. The claim takes the id that \<^verbatim>\<open>addEntry\<close> generates to be fresh;
  \<^verbatim>\<open>addAmount\<close> (lines 203 to 219) takes \<^verbatim>\<open>Math.random().toString(36).slice(2)\<close> as it
  comes and compares it with no id of the ledger. On 1 January 2024, with the coffee of
  id \<^verbatim>\<open>k3x9f1\<close> in the bucket of the day, an entry of 5 that draws the same id is
  appended, and the deletion by that id takes both entries: the day is left empty.
\<close>

theorem add_then_delete_collision_counterexample:
  "js_gt (Num 5) (Num 0) \<and>
   todayEntries coffee_state = [coffee] \<and>
   todayEntries (addAmount ''k3x9f1'' 1704070000000 (Num 5) None None coffee_state)
     = [coffee,
        \<lparr>id_e = ''k3x9f1'', amount = Num 5, timestamp = 1704070000000, category = ''food'',
         note_e = []\<rparr>] \<and>
   todayEntries (deleteExpense ''k3x9f1''
       (addAmount ''k3x9f1'' 1704070000000 (Num 5) None None coffee_state)) = [] \<and>
   todayEntries (deleteExpense ''k3x9f1''
       (addAmount ''k3x9f1'' 1704070000000 (Num 5) None None coffee_state))
     \<noteq> todayEntries coffee_state"
proof -
  have a: "todayEntries (addAmount ''k3x9f1'' 1704070000000 (Num 5) None None coffee_state)
     = [coffee,
        \<lparr>id_e = ''k3x9f1'', amount = Num 5, timestamp = 1704070000000, category = ''food'',
         note_e = []\<rparr>]"
    by (simp add: addAmount_def todayEntries_def bucket_spread_with bucket_def
        todayKey_coffee book_coffee selected_coffee)
  have d: "todayEntries (deleteExpense ''k3x9f1''
       (addAmount ''k3x9f1'' 1704070000000 (Num 5) None None coffee_state)) = []"
    by (simp add: deleteExpense_def addAmount_def todayEntries_def bucket_spread_with
        bucket_def todayKey_coffee book_coffee selected_coffee coffee_def)
  show ?thesis
    by (simp add: a d today_coffee)
qed

text \<open>
  C3, amended. For a positive amount \<^verbatim>\<open>addAmount\<close> appends to today's entries the entry
  with the id drawn, the amount, the time of the call, the category given or else the
  selected one, and the note given or else the empty one. \<^verbatim>\<open>deleteExpense\<close> with that id
  then leaves the entries of the day that do not carry it. So the two calls leave
  today's entries as they were before exactly when the id drawn is fresh, that is when
  no entry of the day carries it; the code does not see to that. With a fresh id and a
  bucket for the day the whole ledger is as it was. The id is the output of
  \<^verbatim>\<open>Math.random\<close>, an argument here.
\<close>

theorem add_then_delete_roundtrip:
  assumes "js_gt amt (Num 0)"
  shows "todayEntries (addAmount rnd now_ms amt cat nt s)
           = todayEntries s @
             [\<lparr>id_e = rnd, amount = amt, timestamp = now_ms,
               category = (case cat of None \<Rightarrow> selectedCategory s | Some c \<Rightarrow> c),
               note_e = (case nt of None \<Rightarrow> [] | Some n \<Rightarrow> n)\<rparr>] \<and>
         todayEntries (deleteExpense rnd (addAmount rnd now_ms amt cat nt s))
           = filter (\<lambda>expense. id_e expense \<noteq> rnd) (todayEntries s) \<and>
         (todayEntries (deleteExpense rnd (addAmount rnd now_ms amt cat nt s)) = todayEntries s
            \<longleftrightarrow> rnd \<notin> id_e ` set (todayEntries s)) \<and>
         (rnd \<notin> id_e ` set (todayEntries s) \<and> map_of (book s) (todayKey s) \<noteq> None \<longrightarrow>
            book (deleteExpense rnd (addAmount rnd now_ms amt cat nt s)) = book s)"
proof -
  note add = todayEntries_addAmount [OF assms, of rnd now_ms cat nt s]
  note del = todayEntries_add_then_delete [OF assms, of rnd now_ms cat nt s]
  have trip: "todayEntries (deleteExpense rnd (addAmount rnd now_ms amt cat nt s)) = todayEntries s
      \<longleftrightarrow> rnd \<notin> id_e ` set (todayEntries s)"
    by (simp only: del filter_id_unchanged_iff)
  have whole: "book (deleteExpense rnd (addAmount rnd now_ms amt cat nt s)) = book s"
    if fresh: "rnd \<notin> id_e ` set (todayEntries s)"
      and some: "map_of (book s) (todayKey s) \<noteq> None"
  proof -
    from some obtain arr where arr: "map_of (book s) (todayKey s) = Some arr"
      by auto
    have "filter (\<lambda>expense. id_e expense \<noteq> rnd) (bucket (book s) (todayKey s))
        = bucket (book s) (todayKey s)"
      using fresh by (simp add: todayEntries_def filter_absent_id)
    with arr show ?thesis
      by (simp add: book_add_then_delete [OF assms] bucket_def spread_with_same)
  qed
  from add del trip whole show ?thesis
    by blast
qed

theorem add_then_delete_roundtrip_witness:
  "js_gt (Num 5) (Num 0) \<and>
   ''q7'' \<notin> id_e ` set (todayEntries coffee_state) \<and>
   map_of (book coffee_state) (todayKey coffee_state) \<noteq> None \<and>
   todayEntries (addAmount ''q7'' 1704070000000 (Num 5) None (Some ''tea'') coffee_state)
     = [coffee,
        \<lparr>id_e = ''q7'', amount = Num 5, timestamp = 1704070000000, category = ''food'',
         note_e = ''tea''\<rparr>] \<and>
   todayEntries (deleteExpense ''q7''
       (addAmount ''q7'' 1704070000000 (Num 5) None (Some ''tea'') coffee_state)) = [coffee] \<and>
   book (deleteExpense ''q7''
       (addAmount ''q7'' 1704070000000 (Num 5) None (Some ''tea'') coffee_state))
     = [(''2024-01-01'', [coffee])] \<and>
   todayEntries (deleteExpense ''q7''
       (addAmount ''q7'' 1704200000000 (Num 5) None (Some ''tea'') restored_state))
     = todayEntries restored_state"
proof -
  have a: "js_gt (Num 5) (Num 0)"
    by simp
  have b: "''q7'' \<notin> id_e ` set (todayEntries coffee_state)"
    by (simp add: today_coffee coffee_def)
  have c: "map_of (book coffee_state) (todayKey coffee_state) \<noteq> None"
    by (simp add: todayKey_coffee book_coffee)
  have r: "''q7'' \<notin> id_e ` set (todayEntries restored_state)"
    by (simp add: todayEntries_def bucket_def todayKey_restored book_restored)
  note t = add_then_delete_roundtrip [OF a,
      where rnd = "''q7''" and now_ms = 1704070000000 and cat = None and nt = "Some ''tea''"
        and s = coffee_state]
  note u = add_then_delete_roundtrip [OF a,
      where rnd = "''q7''" and now_ms = 1704200000000 and cat = None and nt = "Some ''tea''"
        and s = restored_state]
  from t have "todayEntries
      (addAmount ''q7'' 1704070000000 (Num 5) None (Some ''tea'') coffee_state)
     = todayEntries coffee_state @
       [\<lparr>id_e = ''q7'', amount = Num 5, timestamp = 1704070000000,
         category = (case None of None \<Rightarrow> selectedCategory coffee_state | Some c \<Rightarrow> c),
         note_e = (case Some ''tea'' of None \<Rightarrow> [] | Some n \<Rightarrow> n)\<rparr>]"
    by blast
  then have d: "todayEntries
      (addAmount ''q7'' 1704070000000 (Num 5) None (Some ''tea'') coffee_state)
     = [coffee,
        \<lparr>id_e = ''q7'', amount = Num 5, timestamp = 1704070000000, category = ''food'',
         note_e = ''tea''\<rparr>]"
    by (simp add: today_coffee selected_coffee)
  from t b have "todayEntries (deleteExpense ''q7''
       (addAmount ''q7'' 1704070000000 (Num 5) None (Some ''tea'') coffee_state))
     = todayEntries coffee_state"
    by blast
  then have e: "todayEntries (deleteExpense ''q7''
       (addAmount ''q7'' 1704070000000 (Num 5) None (Some ''tea'') coffee_state)) = [coffee]"
    by (simp add: today_coffee)
  from t b c have "book (deleteExpense ''q7''
       (addAmount ''q7'' 1704070000000 (Num 5) None (Some ''tea'') coffee_state))
     = book coffee_state"
    by blast
  then have f: "book (deleteExpense ''q7''
       (addAmount ''q7'' 1704070000000 (Num 5) None (Some ''tea'') coffee_state))
     = [(''2024-01-01'', [coffee])]"
    by (simp add: book_coffee)
  from u r have g: "todayEntries (deleteExpense ''q7''
       (addAmount ''q7'' 1704200000000 (Num 5) None (Some ''tea'') restored_state))
     = todayEntries restored_state"
    by blast
  from a b c d e f g show ?thesis
    by blast
qed

subsection \<open>The guard of addAmount\<close>

text \<open>
  C4. An amount that is \<^verbatim>\<open>NaN\<close>, zero or negative fails the test \<^verbatim>\<open>amt > 0\<close>, and
  \<^verbatim>\<open>addAmount\<close> returns at once: the whole state, and with it the ledger, is what it
  was. No entry is appended and no bucket is created.
\<close>

theorem addAmount_rejects_nonpositive:
  "amt = NaN \<or> js_le amt (Num 0) \<Longrightarrow> addAmount rnd now_ms amt cat nt s = s"
  by (cases amt) (auto simp: addAmount_def)

theorem addAmount_rejects_nonpositive_witness:
  "js_le (Num (- 5)) (Num 0)
   \<and> addAmount ''k3x9'' 1704067200000 (Num (- 5)) None None (initial_state 1704067200000)
       = initial_state 1704067200000
   \<and> addAmount ''k3x9'' 1704067200000 NaN None None (initial_state 1704067200000)
       = initial_state 1704067200000"
  using addAmount_rejects_nonpositive [of "Num (- 5)" "''k3x9''" 1704067200000 None None "initial_state 1704067200000"]
    addAmount_rejects_nonpositive [of NaN "''k3x9''" 1704067200000 None None "initial_state 1704067200000"]
  by simp

subsection \<open>The day key of an instant\<close>

text \<open>
  C5, as stated, fails on the year: \<^verbatim>\<open>dateKey\<close> pads the month and the day to two
  digits and prints the year as it is. In the year 999 the key is \<^verbatim>\<open>999-01-01\<close>, in
  the year 10000 it is \<^verbatim>\<open>10000-01-01\<close>; neither has the shape YYYY-MM-DD.
\<close>

theorem dateKey_year_unpadded_counterexample:
  "getFullYear (- 30641760000000) = 999 \<and>
   dateKey (- 30641760000000) = ''999-01-01'' \<and>
   \<not> is_YYYY_MM_DD (dateKey (- 30641760000000)) \<and>
   getFullYear 253402300800000 = 10000 \<and>
   dateKey 253402300800000 = ''10000-01-01'' \<and>
   \<not> is_YYYY_MM_DD (dateKey 253402300800000)"
  by (simp add: dateKey_eval year_999 year_10000)

text \<open>
  C5, amended. \<^verbatim>\<open>dateKey\<close> is a function of the date. Its value is the local year as
  \<^verbatim>\<open>String\<close> prints it, a hyphen, the month from 01 to 12, a hyphen and the day from
  01 to 31, both with two digits. The key has the shape YYYY-MM-DD exactly when the
  local year lies between 1000 and 9999. Two dates have the same key exactly when they
  fall on the same local day.
\<close>

theorem dateKey_format_and_injective:
  "dateKey d = String_of_int (getFullYear d) @ ''-'' @
     [digit_char (nat (getMonth d + 1) div 10), digit_char (nat (getMonth d + 1) mod 10)] @ ''-'' @
     [digit_char (nat (getDate d) div 10), digit_char (nat (getDate d) mod 10)] \<and>
   1 \<le> getMonth d + 1 \<and> getMonth d + 1 \<le> 12 \<and> 1 \<le> getDate d \<and> getDate d \<le> 31 \<and>
   (is_YYYY_MM_DD (dateKey d) \<longleftrightarrow> 1000 \<le> getFullYear d \<and> getFullYear d \<le> 9999) \<and>
   (dateKey d1 = dateKey d2 \<longleftrightarrow> Day d1 = Day d2)"
proof -
  have "1 \<le> getMonth d + 1 \<and> getMonth d + 1 \<le> 12 \<and> 1 \<le> getDate d \<and> getDate d \<le> 31"
    using MonthFromTime_range [of d] DateFromTime_range [of d]
    by (simp add: getMonth_def getDate_def)
  moreover have "dateKey d1 = dateKey d2 \<longleftrightarrow> Day d1 = Day d2"
    using dateKey_inj [of d1 d2] dateKey_depends_on_Day [of d1 d2] by blast
  ultimately show ?thesis
    using dateKey_fields [of d] dateKey_shape [of d] by blast
qed

theorem dateKey_format_and_injective_witness:
  "dateKey 1704100000000 = ''2024-01-01'' \<and>
   is_YYYY_MM_DD (dateKey 1704100000000) \<and>
   Day 1704100000000 = Day 1704067200000 \<and>
   dateKey 1704100000000 = dateKey 1704067200000 \<and>
   Day 1704100000000 \<noteq> Day 1704200000000 \<and>
   dateKey 1704100000000 \<noteq> dateKey 1704200000000"
proof -
  note t = dateKey_format_and_injective [of 1704100000000 1704100000000 1704067200000]
  note u = dateKey_format_and_injective [of 1704100000000 1704100000000 1704200000000]
  have g: "getFullYear 1704100000000 = 2024" "getMonth 1704100000000 = 0"
    "getDate 1704100000000 = 1"
    by (simp_all add: dateKey_eval years)
  have k: "dateKey 1704100000000 = ''2024-01-01''"
    using t by (simp add: g String_of_int_def digits.simps digit_char_def)
  from t have "is_YYYY_MM_DD (dateKey 1704100000000) \<longleftrightarrow>
      1000 \<le> getFullYear 1704100000000 \<and> getFullYear 1704100000000 \<le> 9999"
    by blast
  then have s: "is_YYYY_MM_DD (dateKey 1704100000000)"
    by (simp add: g(1))
  have d: "Day 1704100000000 = Day 1704067200000" "Day 1704100000000 \<noteq> Day 1704200000000"
    by (simp_all add: Day_def msPerDay_def)
  have e: "dateKey 1704100000000 = dateKey 1704067200000"
    using t d(1) by blast
  have n: "dateKey 1704100000000 \<noteq> dateKey 1704200000000"
    using u d(2) by blast
  from k s d(1) e d(2) n show ?thesis
    by blast
qed

subsection \<open>The totals of the week\<close>

text \<open>
  C6. When the seven readings of the clock fall on the local day \<open>today\<close>,
  \<^verbatim>\<open>last7Totals\<close> has seven entries; their dates are the local midnights of the days
  \<open>today - 6\<close> up to \<open>today\<close>, in this order, so the last one has today's key; and
  the total of each entry is the sum of the amounts in the bucket under the \<^verbatim>\<open>dateKey\<close>
  of its date, which is 0 where the ledger has no such key.
\<close>

theorem last7Totals_week:
  assumes "\<forall>i\<in>{0..6}. Day (clock i) = today"
  shows "length (last7Totals clock bk) = 7 \<and>
         map date (last7Totals clock bk)
           = [(today - 6) * msPerDay, (today - 5) * msPerDay, (today - 4) * msPerDay,
              (today - 3) * msPerDay, (today - 2) * msPerDay, (today - 1) * msPerDay,
              today * msPerDay] \<and>
         map (Day \<circ> date) (last7Totals clock bk)
           = [today - 6, today - 5, today - 4, today - 3, today - 2, today - 1, today] \<and>
         dateKey (date (last (last7Totals clock bk))) = dateKey (clock 0) \<and>
         (\<forall>r\<in>set (last7Totals clock bk).
            total_d r = sum_amounts (bucket bk (dateKey (date r))) \<and>
            (map_of bk (dateKey (date r)) = None \<longrightarrow> total_d r = Num 0))"
proof -
  have c: "Day (clock 6) = today" "Day (clock 5) = today" "Day (clock 4) = today"
    "Day (clock 3) = today" "Day (clock 2) = today" "Day (clock 1) = today"
    "Day (clock 0) = today"
    using assms by simp_all
  have key: "dateKey (today * msPerDay) = dateKey (clock 0)"
    by (rule dateKey_depends_on_Day) (simp add: Day_midnight c)
  have empty: "sum_amounts (bucket bk k) = Num 0" if "map_of bk k = None" for k
    using that by (simp add: bucket_def)
  show ?thesis
    by (simp add: last7Totals_unfold c Day_midnight key empty)
qed

theorem last7Totals_week_witness:
  "length (last7Totals (\<lambda>i. 1704200000000) [(''2024-01-01'', [coffee]), (''2024-01-02'', [])]) = 7 \<and>
   map (dateKey \<circ> date)
       (last7Totals (\<lambda>i. 1704200000000) [(''2024-01-01'', [coffee]), (''2024-01-02'', [])])
     = [''2023-12-27'', ''2023-12-28'', ''2023-12-29'', ''2023-12-30'', ''2023-12-31'',
        ''2024-01-01'', ''2024-01-02''] \<and>
   map total_d
       (last7Totals (\<lambda>i. 1704200000000) [(''2024-01-01'', [coffee]), (''2024-01-02'', [])])
     = [Num 0, Num 0, Num 0, Num 0, Num 0, Num 10, Num 0]"
proof -
  let ?w = "last7Totals (\<lambda>i. 1704200000000) [(''2024-01-01'', [coffee]), (''2024-01-02'', [])]"
  have h: "\<forall>i\<in>{0..6}. Day ((\<lambda>i. 1704200000000) i) = 19724"
    by (simp add: Day_def msPerDay_def)
  note w = last7Totals_week [OF h, of "[(''2024-01-01'', [coffee]), (''2024-01-02'', [])]"]
  have len: "length ?w = 7"
    using w by blast
  have dates: "map date ?w
      = [1703635200000, 1703721600000, 1703808000000, 1703894400000, 1703980800000,
         1704067200000, 1704153600000]"
    using w by (simp add: msPerDay_def)
  note keys = week_keys
  have "map (dateKey \<circ> date) ?w = map dateKey (map date ?w)"
    by simp
  then have k: "map (dateKey \<circ> date) ?w
     = [''2023-12-27'', ''2023-12-28'', ''2023-12-29'', ''2023-12-30'', ''2023-12-31'',
        ''2024-01-01'', ''2024-01-02'']"
    by (simp only: dates keys)
  have "list_all (\<lambda>r. total_d r = sum_amounts
        (bucket [(''2024-01-01'', [coffee]), (''2024-01-02'', [])] (dateKey (date r)))) ?w"
    using w by (simp add: list_all_iff)
  then have "map total_d ?w = map (\<lambda>r. sum_amounts
        (bucket [(''2024-01-01'', [coffee]), (''2024-01-02'', [])] (dateKey (date r)))) ?w"
    by (simp add: list_all_iff)
  also have "\<dots> = map (\<lambda>k. sum_amounts
        (bucket [(''2024-01-01'', [coffee]), (''2024-01-02'', [])] k)) (map (dateKey \<circ> date) ?w)"
    by simp
  also have "\<dots> = [Num 0, Num 0, Num 0, Num 0, Num 0, Num 10, Num 0]"
    by (simp only: k) (simp add: bucket_def coffee_def)
  finally have t: "map total_d ?w = [Num 0, Num 0, Num 0, Num 0, Num 0, Num 10, Num 0]" .
  from len k t show ?thesis
    by blast
qed

subsection \<open>The budget meter\<close>

text \<open>
  C7. For a total \<open>t \<ge> 0\<close>: \<^verbatim>\<open>remaining\<close> is \<^verbatim>\<open>Math.max(0, budget - t)\<close>, for a
  budget \<open>b\<close> that is a number \<open>max 0 (b - t)\<close>, which lies between 0 and \<open>b\<close> when
  \<open>b \<ge> 0\<close>; \<^verbatim>\<open>progress\<close> is \<open>min 1 (t / b)\<close> for \<open>b > 0\<close> and 0 for \<open>b \<le> 0\<close>.
  For every budget, \<^verbatim>\<open>NaN\<close> too, \<^verbatim>\<open>progress\<close> is a number between 0 and 1, and the
  division, guarded by \<^verbatim>\<open>dailyBudget > 0\<close>, never has a zero divisor.
\<close>

theorem budget_meter_bounds:
  assumes "0 \<le> t"
  shows "remaining budget (Num t) = Math_max (Num 0) (js_sub budget (Num t)) \<and>
         remaining (Num b) (Num t) = Num (max 0 (b - t)) \<and>
         (0 \<le> b \<longrightarrow> (\<exists>r. remaining (Num b) (Num t) = Num r \<and> 0 \<le> r \<and> r \<le> b)) \<and>
         (0 < b \<longrightarrow> progress (Num b) (Num t) = Some (Num (min 1 (t / b)))) \<and>
         (b \<le> 0 \<longrightarrow> progress (Num b) (Num t) = Some (Num 0)) \<and>
         (\<exists>p. progress budget (Num t) = Some (Num p) \<and> 0 \<le> p \<and> p \<le> 1)"
proof -
  have g: "remaining budget (Num t) = Math_max (Num 0) (js_sub budget (Num t))"
    by (simp add: remaining_def)
  have r: "remaining (Num b) (Num t) = Num (max 0 (b - t))"
    by (simp add: remaining_def)
  have rb: "\<exists>r. remaining (Num b) (Num t) = Num r \<and> 0 \<le> r \<and> r \<le> b" if "0 \<le> b"
    using that assms by (simp add: r)
  have pos: "progress (Num b) (Num t) = Some (Num (min 1 (t / b)))" if "0 < b"
    using that by (simp add: progress_def)
  have nonpos: "progress (Num b) (Num t) = Some (Num 0)" if "b \<le> 0"
    using that by (simp add: progress_def)
  have range: "\<exists>p. progress budget (Num t) = Some (Num p) \<and> 0 \<le> p \<and> p \<le> 1"
  proof (cases budget)
    case NaN
    then show ?thesis by (simp add: progress_def)
  next
    case (Num y)
    show ?thesis
    proof (cases "0 < y")
      case True
      with assms have "0 \<le> t / y" by simp
      with True Num show ?thesis by (simp add: progress_def)
    next
      case False
      with Num show ?thesis by (simp add: progress_def)
    qed
  qed
  from g r rb pos nonpos range show ?thesis
    by blast
qed

theorem budget_meter_bounds_witness:
  "(0::real) \<le> 25 \<and> remaining (Num 20) (Num 25) = Num 0 \<and>
   progress (Num 20) (Num 25) = Some (Num 1) \<and>
   (0::real) \<le> 17 \<and> remaining (Num 30) (Num 17) = Num 13 \<and>
   progress (Num 30) (Num 17) = Some (Num (17 / 30)) \<and>
   progress (Num 0) (Num 17) = Some (Num 0)"
proof -
  have a: "(0::real) \<le> 25" and b: "(0::real) \<le> 17"
    by simp_all
  from budget_meter_bounds [OF a, where b = 20] budget_meter_bounds [OF b, where b = 30]
    budget_meter_bounds [OF b, where b = 0]
  show ?thesis
    by simp
qed

subsection \<open>The total of the month\<close>

text \<open>
  C8. \<^verbatim>\<open>thisMonthTotal\<close> is the sum of the amounts of those entries, of all buckets,
  whose timestamp lies in the local month and year of \<open>now\<close>. The keys play no part:
  the total is the same under any renaming of the keys of the ledger.
\<close>

theorem thisMonthTotal_by_timestamp:
  "thisMonthTotal (spendingSummary tz now bk)
     = sum_amounts
         (filter (\<lambda>e. getMonth (tz (timestamp e)) = getMonth now \<and>
                       getFullYear (tz (timestamp e)) = getFullYear now)
            (concat (Object_values bk))) \<and>
   thisMonthTotal (spendingSummary tz now (map (\<lambda>(k, es). (rekey k, es)) bk))
     = thisMonthTotal (spendingSummary tz now bk)"
proof -
  have "Object_values (map (\<lambda>(k, es). (rekey k, es)) bk) = Object_values bk"
    by (induction bk) (auto simp: Object_values_def)
  then show ?thesis
    by (simp add: spendingSummary_def Let_def reduce_amounts_sum)
qed

theorem thisMonthTotal_by_timestamp_witness:
  "dateKey 1704100000000 = ''2024-01-01'' \<and>
   thisMonthTotal (spendingSummary (\<lambda>ms. ms) 1704200000000 [(''2023-12-31'', [coffee])]) = Num 10 \<and>
   thisMonthTotal (spendingSummary (\<lambda>ms. ms) 1703900000000 [(''2023-12-31'', [coffee])]) = Num 0"
proof -
  have m: "getMonth 1704100000000 = 0" "getFullYear 1704100000000 = 2024"
    "getMonth 1704200000000 = 0" "getFullYear 1704200000000 = 2024"
    "getMonth 1703900000000 = 11" "getFullYear 1703900000000 = 2023"
    by (simp_all add: dateKey_eval years)
  have k: "dateKey 1704100000000 = ''2024-01-01''"
    by (simp add: dateKey_eval years)
  from thisMonthTotal_by_timestamp [of "\<lambda>ms. ms" 1704200000000 "[(''2023-12-31'', [coffee])]"]
  have a: "thisMonthTotal (spendingSummary (\<lambda>ms. ms) 1704200000000 [(''2023-12-31'', [coffee])])
      = Num 10"
    by (simp add: Object_values_def coffee_def m)
  from thisMonthTotal_by_timestamp [of "\<lambda>ms. ms" 1703900000000 "[(''2023-12-31'', [coffee])]"]
  have b: "thisMonthTotal (spendingSummary (\<lambda>ms. ms) 1703900000000 [(''2023-12-31'', [coffee])])
      = Num 0"
    by (simp add: Object_values_def coffee_def m)
  from k a b show ?thesis
    by blast
qed

subsection \<open>The CSV export\<close>

text \<open>
  C9, as stated, fails. The claim has every amount of a row formatted to exactly two
  decimal places; \<^verbatim>\<open>toFixed(2)\<close> (line 268) does so below \<open>10\<^sup>2\<^sup>1\<close> only. The amount
  \<open>10\<^sup>2\<^sup>1\<close> is above zero, so \<^verbatim>\<open>addAmount\<close> (line 204) stores it, and its row in the
  export reads \<^verbatim>\<open>1e+21\<close>, with no decimal place.
\<close>

theorem exportData_csv_exponent_counterexample:
  "js_gt (amount fortune) (Num 0) \<and>
   book (addAmount ''z1'' 1704190000000 (amount fortune) (Some ''other'') None restored_state)
     = [(''2024-01-01'', [coffee]), (''2024-01-02'', [fortune])] \<and>
   Number_toFixed (amount fortune) 2 = ''1e+21'' \<and>
   \<not> two_decimals (Number_toFixed (amount fortune) 2) \<and>
   snd (exportData_csv (\<lambda>ms. ms) dateKey 1704200000000
          [(''2024-01-01'', [coffee]), (''2024-01-02'', [fortune])])
     = ''Date,Amount,Category,Note'' @ [CHR 0x0A] @
       ''2024-01-02,1e+21,other,'' @ [CHR 0x0A] @
       ''2024-01-01,10.00,food,coffee; latte''"
proof -
  have a: "js_gt (amount fortune) (Num 0)"
    by (simp add: fortune_def)
  have b: "book (addAmount ''z1'' 1704190000000 (amount fortune) (Some ''other'') None
        restored_state)
     = [(''2024-01-01'', [coffee]), (''2024-01-02'', [fortune])]"
    by (simp add: addAmount_def bucket_def todayKey_restored book_restored fortune_def)
  have c: "Number_toFixed (amount fortune) 2 = ''1e+21''"
    by (simp add: fortune_def toFixed_examples)
  have d: "\<not> two_decimals (Number_toFixed (amount fortune) 2)"
    by (simp add: c two_decimals_def is_digit_def)
  have s: "sortedEntries [(''2024-01-01'', [coffee]), (''2024-01-02'', [fortune])]
     = [fortune, coffee]"
    by (simp add: sortedEntries_def Object_values_def coffee_def fortune_def)
  have r1: "csv_row (\<lambda>ms. ms) dateKey coffee = ''2024-01-01,10.00,food,coffee; latte''"
    by (simp add: csv_row_def Let_def replace_commas_def coffee_def toFixed_examples
        key_1704100000000)
  have r2: "csv_row (\<lambda>ms. ms) dateKey fortune = ''2024-01-02,1e+21,other,''"
    by (simp add: csv_row_def Let_def replace_commas_def fortune_def toFixed_examples
        key_1704190000000)
  have e: "snd (exportData_csv (\<lambda>ms. ms) dateKey 1704200000000
          [(''2024-01-01'', [coffee]), (''2024-01-02'', [fortune])])
     = ''Date,Amount,Category,Note'' @ [CHR 0x0A] @
       ''2024-01-02,1e+21,other,'' @ [CHR 0x0A] @
       ''2024-01-01,10.00,food,coffee; latte''"
    by (simp add: exportData_csv_def Let_def s r1 r2)
  from a b c d e show ?thesis
    by blast
qed

text \<open>
  C9, amended. The content is the header \<^verbatim>\<open>Date,Amount,Category,Note\<close>, a line feed, and
  the rows joined by line feeds. The rows are those of the sorted entries, which are the
  entries of the ledger, each once, by falling timestamp. A row is the date in the
  locale's format, the amount from \<^verbatim>\<open>toFixed(2)\<close>, the category as it is stored and the
  note with every comma turned into a semicolon, with commas between them. The amount of
  an entry is printed with exactly two decimals if and only if it is a number of
  magnitude below \<open>10\<^sup>2\<^sup>1\<close>; from there on \<^verbatim>\<open>toFixed\<close> prints exponent notation. So all
  rows of an export have two decimals exactly when all amounts of the ledger are below
  that bound.
\<close>

theorem exportData_csv_format:
  "snd (exportData_csv tz fmt now bk)
     = ''Date,Amount,Category,Note'' @ [CHR 0x0A] @
       join [CHR 0x0A] (map (csv_row tz fmt) (sortedEntries bk)) \<and>
   mset (sortedEntries bk) = mset (concat (Object_values bk)) \<and>
   length (map (csv_row tz fmt) (sortedEntries bk)) = length (concat (Object_values bk)) \<and>
   sorted_wrt (\<lambda>a b. timestamp b \<le> timestamp a) (sortedEntries bk) \<and>
   csv_row tz fmt e
     = fmt (tz (timestamp e)) @ '','' @ Number_toFixed (amount e) 2 @ '','' @ category e @ '','' @
       map (\<lambda>c. if c = CHR '','' then CHR '';'' else c) (note_e e) \<and>
   (two_decimals (Number_toFixed (amount e) 2) \<longleftrightarrow> fixed_range (amount e)) \<and>
   (list_all (\<lambda>e. two_decimals (Number_toFixed (amount e) 2)) (sortedEntries bk)
      \<longleftrightarrow> list_all (\<lambda>e. fixed_range (amount e)) (concat (Object_values bk))) \<and>
   CHR '','' \<notin> set (replace_commas (note_e e)) \<and>
   replace_commas ''coffee, latte'' = ''coffee; latte''"
proof -
  have content: "snd (exportData_csv tz fmt now bk)
     = ''Date,Amount,Category,Note'' @ [CHR 0x0A] @
       join [CHR 0x0A] (map (csv_row tz fmt) (sortedEntries bk))"
    by (simp add: exportData_csv_def Let_def)
  have len: "length (map (csv_row tz fmt) (sortedEntries bk)) = length (concat (Object_values bk))"
    using sortedEntries_mset [of bk] by (simp del: length_concat) (metis size_mset)
  have row: "csv_row tz fmt e
     = fmt (tz (timestamp e)) @ '','' @ Number_toFixed (amount e) 2 @ '','' @ category e @ '','' @
       map (\<lambda>c. if c = CHR '','' then CHR '';'' else c) (note_e e)"
    by (simp add: csv_row_def Let_def replace_commas_def)
  have dec: "two_decimals (Number_toFixed (amount x) 2) \<longleftrightarrow> fixed_range (amount x)" for x
    by (cases "amount x") (simp_all add: toFixed_two_decimals_iff fixed_range_def)
  have rows: "list_all (\<lambda>e. two_decimals (Number_toFixed (amount e) 2)) (sortedEntries bk)
      \<longleftrightarrow> list_all (\<lambda>e. fixed_range (amount e)) (concat (Object_values bk))"
  proof -
    have "set (sortedEntries bk) = set (concat (Object_values bk))"
      using sortedEntries_mset [of bk] by (rule mset_eq_setD)
    then show ?thesis
      unfolding list_all_iff by (simp only: dec)
  qed
  have ex: "replace_commas ''coffee, latte'' = ''coffee; latte''"
    by (simp add: replace_commas_def)
  from content sortedEntries_mset [of bk] len sortedEntries_desc [of bk] row dec [of e] rows
    replace_commas_no_comma [of "note_e e"] ex
  show ?thesis
    by blast
qed

theorem exportData_csv_format_witness:
  "fixed_range (amount coffee) \<and> two_decimals (Number_toFixed (amount coffee) 2) \<and>
   list_all (\<lambda>e. fixed_range (amount e))
     (concat (Object_values [(''2024-01-01'', [coffee]), (''2024-01-02'', [tea])])) \<and>
   list_all (\<lambda>e. two_decimals (Number_toFixed (amount e) 2))
     (sortedEntries [(''2024-01-01'', [coffee]), (''2024-01-02'', [tea])]) \<and>
   sortedEntries [(''2024-01-01'', [coffee]), (''2024-01-02'', [tea])] = [tea, coffee] \<and>
   snd (exportData_csv (\<lambda>ms. ms) dateKey 1704200000000
          [(''2024-01-01'', [coffee]), (''2024-01-02'', [tea])])
     = ''Date,Amount,Category,Note'' @ [CHR 0x0A] @
       ''2024-01-02,4.50,food,tea'' @ [CHR 0x0A] @
       ''2024-01-01,10.00,food,coffee; latte''"
proof -
  let ?bk = "[(''2024-01-01'', [coffee]), (''2024-01-02'', [tea])]"
  note t = exportData_csv_format [of "\<lambda>ms. ms" dateKey 1704200000000 ?bk coffee]
  note u = exportData_csv_format [of "\<lambda>ms. ms" dateKey 1704200000000 ?bk tea]
  have a: "fixed_range (amount coffee)"
    by (simp add: coffee_def fixed_range_def)
  with t have b: "two_decimals (Number_toFixed (amount coffee) 2)"
    by blast
  have p: "list_all (\<lambda>e. fixed_range (amount e)) (concat (Object_values ?bk))"
    by (simp add: fixed_range_def Object_values_def coffee_def tea_def)
  with t have q: "list_all (\<lambda>e. two_decimals (Number_toFixed (amount e) 2)) (sortedEntries ?bk)"
    by blast
  have s: "sortedEntries ?bk = [tea, coffee]"
    by (simp add: sortedEntries_def Object_values_def coffee_def tea_def)
  from t have "csv_row (\<lambda>ms. ms) dateKey coffee
     = dateKey ((\<lambda>ms. ms) (timestamp coffee)) @ '','' @ Number_toFixed (amount coffee) 2 @
       '','' @ category coffee @ '','' @
       map (\<lambda>c. if c = CHR '','' then CHR '';'' else c) (note_e coffee)"
    by blast
  then have r1: "csv_row (\<lambda>ms. ms) dateKey coffee = ''2024-01-01,10.00,food,coffee; latte''"
    by (simp add: coffee_def toFixed_examples key_1704100000000)
  from u have "csv_row (\<lambda>ms. ms) dateKey tea
     = dateKey ((\<lambda>ms. ms) (timestamp tea)) @ '','' @ Number_toFixed (amount tea) 2 @
       '','' @ category tea @ '','' @
       map (\<lambda>c. if c = CHR '','' then CHR '';'' else c) (note_e tea)"
    by blast
  then have r2: "csv_row (\<lambda>ms. ms) dateKey tea = ''2024-01-02,4.50,food,tea''"
    by (simp add: tea_def toFixed_examples key_1704190000000)
  from t have "snd (exportData_csv (\<lambda>ms. ms) dateKey 1704200000000 ?bk)
     = ''Date,Amount,Category,Note'' @ [CHR 0x0A] @
       join [CHR 0x0A] (map (csv_row (\<lambda>ms. ms) dateKey) (sortedEntries ?bk))"
    by blast
  then have c: "snd (exportData_csv (\<lambda>ms. ms) dateKey 1704200000000 ?bk)
     = ''Date,Amount,Category,Note'' @ [CHR 0x0A] @
       ''2024-01-02,4.50,food,tea'' @ [CHR 0x0A] @
       ''2024-01-01,10.00,food,coffee; latte''"
    by (simp add: s r1 r2)
  from a b p q s c show ?thesis
    by blast
qed

subsection \<open>What the mutations leave alone\<close>

text \<open>
  C10. \<^verbatim>\<open>addAmount\<close>, \<^verbatim>\<open>deleteExpense\<close> and \<^verbatim>\<open>clearToday\<close> write the ledger through
  \<^verbatim>\<open>{ ...prev, [todayKey]: arr }\<close> only. Under every day key other than the current one
  the bucket, or its absence, is what it was, and the budget, the quick amounts, the
  categories and the currency are what they were.
\<close>

theorem ledger_mutations_frame:
  "k \<noteq> todayKey s \<Longrightarrow>
     untouched_at k s (addAmount rnd now_ms amt cat nt s) \<and>
     untouched_at k s (deleteExpense expenseId s) \<and>
     untouched_at k s (clearToday pressed s)"
  by (cases pressed)
    (simp_all add: untouched_at_def addAmount_def deleteExpense_def clearToday_def Let_def
      map_of_spread_with)

theorem ledger_mutations_frame_witness:
  "''2024-01-01'' \<noteq> todayKey restored_state \<and>
   untouched_at ''2024-01-01'' restored_state
     (addAmount ''q7'' 1704200000000 (Num 5) None None restored_state) \<and>
   untouched_at ''2024-01-01'' restored_state (deleteExpense ''k3x9f1'' restored_state) \<and>
   untouched_at ''2024-01-01'' restored_state (clearToday Clear restored_state)"
  using ledger_mutations_frame [of "''2024-01-01''" restored_state "''q7''" 1704200000000
      "Num 5" None None "''k3x9f1''" Clear]
  by (simp add: todayKey_restored)

end
